theory Spec2Isabelle
  imports Complex_Main "HOL-Library.AList" "HOL-Library.Multiset"
begin

section \<open>The book scraper (scraper.py)\<close>

text \<open>
  The module fetches listing pages of a catalogue, collects the links to the detail pages,
  extracts one dictionary per book and writes the dictionaries to a text file. The HTTP
  library and the HTML parser are collaborators: a response carries the document tree the
  parser builds from its body, and the operations of the parser the module calls
  (\<open>find\<close>, \<open>find_all\<close>, \<open>get_text\<close>, \<open>find_next_sibling\<close>, subscripting a tag
  by an attribute name) are functions on that tree. A tag counts as true whatever its
  contents, so the tests \<open>if not soup\<close> and \<open>if not main_info\<close> fail only for \<open>None\<close>.
  A string is the byte string of its UTF-8 encoding, and a character is the bytes that encode
  it. Messages printed to the standard output are not part of the model.
\<close>

subsection \<open>Errors\<close>

datatype error = KeyError | TypeError | ValueError | OverflowError | ParserRejectedMarkup

subsection \<open>The document tree\<close>

text \<open>
  A tag has a name, the attributes the module reads (\<open>class\<close>, a list of class names;
  \<open>id\<close>; \<open>href\<close>; each absent or present) and its children; the other kind of node is
  a string of text.
\<close>

datatype node =
    Tag (tag_name: string) (attr_class: "string list option") (attr_id: "string option")
      (attr_href: "string option") (tag_contents: "node list")
  | NavigableString string

text \<open>
  The nodes below a list of siblings in document order, each with the siblings that follow
  it (what \<open>next_siblings\<close> iterates over).
\<close>

fun forest_ctx :: "node list \<Rightarrow> (node \<times> node list) list" where
  "forest_ctx [] = []"
| "forest_ctx (NavigableString s # rest) = (NavigableString s, rest) # forest_ctx rest"
| "forest_ctx (Tag n c i h cs # rest) =
     (Tag n c i h cs, rest) # forest_ctx cs @ forest_ctx rest"

fun contents :: "node \<Rightarrow> node list" where
  "contents (Tag n c i h cs) = cs"
| "contents (NavigableString s) = []"

definition descendants_ctx :: "node \<Rightarrow> (node \<times> node list) list" where
  "descendants_ctx e = forest_ctx (contents e)"

definition descendants :: "node \<Rightarrow> node list" where
  "descendants e = map fst (descendants_ctx e)"

subsection \<open>Search criteria\<close>

text \<open>
  The keyword arguments the module passes to \<open>find\<close> and \<open>find_all\<close>:
  \<open>class_="c"\<close>, \<open>class_=["c", "d"]\<close>, \<open>id="i"\<close> and \<open>href=True\<close>.
\<close>

datatype kwarg = Class_str string | Class_list "string list" | Id_str string | Href_true

fun join_space :: "string list \<Rightarrow> string" where
  "join_space [] = []"
| "join_space [c] = c"
| "join_space (c # d # cs) = c @ '' '' @ join_space (d # cs)"

text \<open>
  An absent attribute matches only an empty criterion. A class list matches a string when
  one of its classes is the string or the classes joined by spaces are; it matches a list
  of strings when it matches one of them.
\<close>

fun matches_class :: "string list option \<Rightarrow> string \<Rightarrow> bool" where
  "matches_class None s = (s = [])"
| "matches_class (Some cs) s = (List.member cs s \<or> join_space cs = s)"

fun matches_kwarg :: "node \<Rightarrow> kwarg \<Rightarrow> bool" where
  "matches_kwarg (Tag n c i h cs) (Class_str s) = matches_class c s"
| "matches_kwarg (Tag n c i h cs) (Class_list l) =
     (case c of None \<Rightarrow> l = [] | Some _ \<Rightarrow> list_ex (matches_class c) l)"
| "matches_kwarg (Tag n c i h cs) (Id_str s) =
     (case i of None \<Rightarrow> s = [] | Some v \<Rightarrow> v = s)"
| "matches_kwarg (Tag n c i h cs) Href_true = (case h of None \<Rightarrow> False | Some _ \<Rightarrow> True)"
| "matches_kwarg (NavigableString s) k = False"

fun matches :: "string option \<Rightarrow> kwarg list \<Rightarrow> node \<Rightarrow> bool" where
  "matches nm kw (Tag n c i h cs) =
     ((case nm of None \<Rightarrow> True | Some t \<Rightarrow> t = n) \<and> list_all (matches_kwarg (Tag n c i h cs)) kw)"
| "matches nm kw (NavigableString s) = False"

definition find_ctx :: "node \<Rightarrow> string option \<Rightarrow> kwarg list \<Rightarrow> (node \<times> node list) option" where
  "find_ctx e nm kw = List.find (\<lambda>p. matches nm kw (fst p)) (descendants_ctx e)"

definition find_tag :: "node \<Rightarrow> string option \<Rightarrow> kwarg list \<Rightarrow> node option" where
  "find_tag e nm kw = map_option fst (find_ctx e nm kw)"

definition find_all :: "node \<Rightarrow> string option \<Rightarrow> kwarg list \<Rightarrow> node list" where
  "find_all e nm kw = filter (matches nm kw) (descendants e)"

text \<open>\<open>find_next_sibling()\<close>: the first tag among the siblings that follow.\<close>

fun is_tag :: "node \<Rightarrow> bool" where
  "is_tag (Tag n c i h cs) = True"
| "is_tag (NavigableString s) = False"

definition find_next_sibling :: "node \<times> node list \<Rightarrow> node option" where
  "find_next_sibling p = List.find is_tag (snd p)"

subsection \<open>Text\<close>

text \<open>
  The characters of a string: the first byte of a character tells how many bytes encode it.
  The functions below are about byte strings that encode a string; on other byte strings they
  are defined and say nothing about the module.
\<close>

definition char_len :: "char \<Rightarrow> nat" where
  "char_len b =
     (if (of_char b :: nat) < 0xC0 then 1
      else if (of_char b :: nat) < 0xE0 then 2
      else if (of_char b :: nat) < 0xF0 then 3
      else 4)"

fun chars :: "string \<Rightarrow> string list" where
  "chars [] = []"
| "chars (b # bs) = (b # take (char_len b - 1) bs) # chars (drop (char_len b - 1) bs)"

definition continuation :: "char \<Rightarrow> bool" where
  "continuation b = (0x80 \<le> (of_char b :: nat) \<and> (of_char b :: nat) < 0xC0)"

text \<open>The code point of a character; bytes that encode no character have none.\<close>

fun code_point :: "string \<Rightarrow> nat option" where
  "code_point [a] = (if (of_char a :: nat) < 0x80 then Some (of_char a) else None)"
| "code_point [a, b] =
     (if 0xC2 \<le> (of_char a :: nat) \<and> (of_char a :: nat) < 0xE0 \<and> continuation b
      then Some ((of_char a - 0xC0) * 64 + (of_char b - 0x80)) else None)"
| "code_point [a, b, c] =
     (let cp = (of_char a - 0xE0) * 4096 + (of_char b - 0x80) * 64 + (of_char c - 0x80) in
      if 0xE0 \<le> (of_char a :: nat) \<and> (of_char a :: nat) < 0xF0 \<and> continuation b
         \<and> continuation c \<and> 0x800 \<le> cp
      then Some cp else None)"
| "code_point [a, b, c, d] =
     (let cp = (of_char a - 0xF0) * 262144 + (of_char b - 0x80) * 4096
                 + (of_char c - 0x80) * 64 + (of_char d - 0x80) in
      if 0xF0 \<le> (of_char a :: nat) \<and> continuation b \<and> continuation c \<and> continuation d
         \<and> 0x10000 \<le> cp \<and> cp \<le> 0x10FFFF
      then Some cp else None)"
| "code_point cs = None"

text \<open>
  The characters that \<open>str.strip()\<close> removes: the white space of Unicode, which has
  characters beyond ASCII such as the no-break space \<open>U+00A0\<close> and the em space
  \<open>U+2003\<close>.
\<close>

definition whitespace :: "nat list" where
  "whitespace = [0x09, 0x0A, 0x0B, 0x0C, 0x0D, 0x1C, 0x1D, 0x1E, 0x1F, 0x20, 0x85, 0xA0, 0x1680,
     0x2000, 0x2001, 0x2002, 0x2003, 0x2004, 0x2005, 0x2006, 0x2007, 0x2008, 0x2009, 0x200A,
     0x2028, 0x2029, 0x202F, 0x205F, 0x3000]"

definition isspace :: "string \<Rightarrow> bool" where
  "isspace ch = (case code_point ch of None \<Rightarrow> False | Some cp \<Rightarrow> List.member whitespace cp)"

definition strip :: "string \<Rightarrow> string" where
  "strip s = concat (rev (dropWhile isspace (rev (dropWhile isspace (chars s)))))"

fun all_strings :: "node list \<Rightarrow> string list" where
  "all_strings [] = []"
| "all_strings (NavigableString s # ns) = s # all_strings ns"
| "all_strings (Tag n c i h cs # ns) = all_strings ns"

text \<open>\<open>get_text()\<close> and \<open>get_text(strip=True)\<close> of a tag.\<close>

definition get_text :: "node \<Rightarrow> string" where
  "get_text e = concat (all_strings (descendants e))"

definition get_text_strip :: "node \<Rightarrow> string" where
  "get_text_strip e = concat (filter (\<lambda>s. s \<noteq> []) (map strip (all_strings (descendants e))))"

subsection \<open>Dictionaries\<close>

text \<open>
  A dictionary keeps its keys in insertion order; storing under a key that is present
  replaces the value and keeps the key's place.
\<close>

type_synonym pydict = "(string \<times> string) list"

definition dict_update :: "pydict \<Rightarrow> pydict \<Rightarrow> pydict" where
  "dict_update d other = fold (\<lambda>kv. AList.update (fst kv) (snd kv)) other d"

subsection \<open>The fields of a book\<close>

text \<open>
  The module's private functions are named with a leading underscore (\<open>_get_rate\<close>),
  which a constant's name cannot have: they appear here without it.
\<close>

definition get_attr_text :: "node \<Rightarrow> string \<Rightarrow> kwarg list \<Rightarrow> string" where
  "get_attr_text html_elem tag kwargs =
     (case find_tag html_elem (Some tag) kwargs of
        Some elem \<Rightarrow> get_text_strip elem
      | None \<Rightarrow> [])"

text \<open>
  The characters that \<open>\d\<close> matches in a pattern on a string: the decimal digits of
  Unicode (version 14, the database of Python 3.11), which come in runs of ten; the list
  holds the zero of each run.
\<close>

definition decimal_zeros :: "nat list" where
  "decimal_zeros = [0x30, 0x660, 0x6F0, 0x7C0, 0x966, 0x9E6, 0xA66, 0xAE6, 0xB66, 0xBE6, 0xC66,
     0xCE6, 0xD66, 0xDE6, 0xE50, 0xED0, 0xF20, 0x1040, 0x1090, 0x17E0, 0x1810, 0x1946, 0x19D0,
     0x1A80, 0x1A90, 0x1B50, 0x1BB0, 0x1C40, 0x1C50, 0xA620, 0xA8D0, 0xA900, 0xA9D0, 0xA9F0,
     0xAA50, 0xABF0, 0xFF10, 0x104A0, 0x10D30, 0x11066, 0x110F0, 0x11136, 0x111D0, 0x112F0,
     0x11450, 0x114D0, 0x11650, 0x116C0, 0x11730, 0x118E0, 0x11950, 0x11C50, 0x11D50, 0x11DA0,
     0x16A60, 0x16AC0, 0x16B50, 0x1D7CE, 0x1D7D8, 0x1D7E2, 0x1D7EC, 0x1D7F6, 0x1E140, 0x1E2F0,
     0x1E950, 0x1FBF0]"

definition isdigit :: "string \<Rightarrow> bool" where
  "isdigit ch =
     (case code_point ch of
        None \<Rightarrow> False
      | Some cp \<Rightarrow> list_ex (\<lambda>zero. zero \<le> cp \<and> cp < zero + 10) decimal_zeros)"

text \<open>\<open>re.search(r"\d+", s)\<close>: the first longest run of digits, if there is a digit.\<close>

definition re_search_digits :: "string \<Rightarrow> string option" where
  "re_search_digits s =
     (case dropWhile (\<lambda>ch. \<not> isdigit ch) (chars s) of
        [] \<Rightarrow> None
      | c # cs \<Rightarrow> Some (concat (takeWhile isdigit (c # cs))))"

definition get_stock_amount :: "string \<Rightarrow> string" where
  "get_stock_amount stock_info =
     (case re_search_digits stock_info of Some in_stock \<Rightarrow> in_stock | None \<Rightarrow> [])"

definition rating_map :: pydict where
  "rating_map = [(''Zero'', ''0''), (''One'', ''1''), (''Two'', ''2''), (''Three'', ''3''),
     (''Four'', ''4''), (''Five'', ''5'')]"

text \<open>\<open>tag["class"]\<close> and \<open>tag["href"]\<close>: a missing attribute raises \<open>KeyError\<close>.\<close>

fun subscript_class :: "node \<Rightarrow> error + string list" where
  "subscript_class (Tag n c i h cs) = (case c of None \<Rightarrow> Inl KeyError | Some v \<Rightarrow> Inr v)"
| "subscript_class (NavigableString s) = Inl TypeError"

fun subscript_href :: "node \<Rightarrow> error + string" where
  "subscript_href (Tag n c i h cs) = (case h of None \<Rightarrow> Inl KeyError | Some v \<Rightarrow> Inr v)"
| "subscript_href (NavigableString s) = Inl TypeError"

fun rate_loop :: "string list \<Rightarrow> string" where
  "rate_loop [] = []"
| "rate_loop (cls # rest) =
     (case map_of rating_map cls of Some v \<Rightarrow> v | None \<Rightarrow> rate_loop rest)"

definition get_rate :: "node \<Rightarrow> string \<Rightarrow> kwarg list \<Rightarrow> error + string" where
  "get_rate html_elem tag kwargs =
     (case find_tag html_elem (Some tag) kwargs of
        None \<Rightarrow> Inr []
      | Some rate_tag \<Rightarrow>
          (case subscript_class rate_tag of
             Inl e \<Rightarrow> Inl e
           | Inr classes \<Rightarrow> Inr (rate_loop classes)))"

definition collect_description :: "node \<Rightarrow> string" where
  "collect_description soup =
     (case find_ctx soup (Some ''div'') [Id_str ''product_description'', Class_str ''sub-header''] of
        None \<Rightarrow> []
      | Some header \<Rightarrow>
          (case find_next_sibling header of
             Some description \<Rightarrow> get_text_strip description
           | None \<Rightarrow> []))"

definition row_key :: "node \<Rightarrow> string" where
  "row_key table_row =
     (case find_tag table_row (Some ''th'') [] of Some header \<Rightarrow> get_text header | None \<Rightarrow> [])"

definition row_value :: "node \<Rightarrow> string" where
  "row_value table_row =
     (case find_tag table_row (Some ''td'') [] of Some row \<Rightarrow> get_text row | None \<Rightarrow> [])"

definition row_step :: "node \<Rightarrow> pydict \<Rightarrow> pydict" where
  "row_step table_row additional_info_dict =
     (let key = row_key table_row in
      if key \<noteq> [] then AList.update key (row_value table_row) additional_info_dict
      else additional_info_dict)"

definition collect_additional_info :: "node \<Rightarrow> pydict" where
  "collect_additional_info soup =
     (case find_tag soup (Some ''table'') [Class_list [''table'', ''table-striped'']] of
        None \<Rightarrow> []
      | Some additional_info_table \<Rightarrow>
          fold row_step (find_all additional_info_table (Some ''tr'') []) [])"

text \<open>The rows the loop of \<open>_collect_additional_info\<close> runs over.\<close>

definition table_rows :: "node \<Rightarrow> node list" where
  "table_rows soup =
     (case find_tag soup (Some ''table'') [Class_list [''table'', ''table-striped'']] of
        None \<Rightarrow> []
      | Some additional_info_table \<Rightarrow> find_all additional_info_table (Some ''tr'') [])"

subsection \<open>Fetching\<close>

text \<open>
  What \<open>session.get\<close> gives for a URL and a timeout: a response with its status code and
  its body, or a failure of the connection (a \<open>RequestException\<close> that is not an
  \<open>HTTPError\<close>). \<open>raise_for_status\<close> raises an \<open>HTTPError\<close> for the status codes
  from 400 to 599. A body is given by what \<open>BeautifulSoup(response.text, "html.parser")\<close>
  makes of it: the tree, or the exception \<open>ParserRejectedMarkup\<close> for markup the parser
  rejects. That exception is none of the two that \<open>_get_book_response\<close> and
  \<open>_process_page\<close> catch, so it leaves them.
\<close>

datatype body = Document node | Rejected

datatype fetch_result = Response nat body | ConnectionFailure

type_synonym session = "string \<Rightarrow> int option \<Rightarrow> fetch_result"

definition NOT_FOUND_STATUS_CODE :: nat where
  "NOT_FOUND_STATUS_CODE = 404"

definition raises_for_status :: "nat \<Rightarrow> bool" where
  "raises_for_status status = (400 \<le> status \<and> status < 600)"

definition BeautifulSoup :: "body \<Rightarrow> error + node" where
  "BeautifulSoup markup = (case markup of Document soup \<Rightarrow> Inr soup | Rejected \<Rightarrow> Inl ParserRejectedMarkup)"

definition get_book_response :: "string \<Rightarrow> session \<Rightarrow> int \<Rightarrow> error + node option" where
  "get_book_response book_url session timeout =
     (case session book_url (Some timeout) of
        ConnectionFailure \<Rightarrow> Inr None
      | Response status markup \<Rightarrow>
          if raises_for_status status then Inr None
          else (case BeautifulSoup markup of Inl e \<Rightarrow> Inl e | Inr soup \<Rightarrow> Inr (Some soup)))"

definition get_book_data :: "string \<Rightarrow> session \<Rightarrow> int \<Rightarrow> error + pydict" where
  "get_book_data book_url session timeout =
     (case get_book_response book_url session timeout of
        Inl e \<Rightarrow> Inl e
      | Inr None \<Rightarrow> Inr []
      | Inr (Some soup) \<Rightarrow>
          (case find_tag soup None [Class_str ''product_main''] of
             None \<Rightarrow> Inr []
           | Some main_info \<Rightarrow>
               (case get_rate main_info ''p'' [Class_str ''star-rating''] of
                  Inl e \<Rightarrow> Inl e
                | Inr rate \<Rightarrow>
                    Inr (dict_update
                      [(''Book name'', get_attr_text main_info ''h1'' []),
                       (''Book price'', get_attr_text main_info ''p'' [Class_str ''price_color'']),
                       (''In stock amount'', get_stock_amount
                          (get_attr_text main_info ''p'' [Class_list [''instock'', ''availability'']])),
                       (''Rate'', rate),
                       (''Book description'', collect_description soup)]
                      (collect_additional_info soup)))))"

subsection \<open>Collecting the links\<close>

text \<open>Decimal notation of an integer, as an f-string writes it.\<close>

fun str_nat :: "nat \<Rightarrow> string" where
  "str_nat n =
     (if n < 10 then [''0123456789'' ! n]
      else str_nat (n div 10) @ [''0123456789'' ! (n mod 10)])"

declare str_nat.simps [simp del]

definition str_int :: "int \<Rightarrow> string" where
  "str_int i = (if i < 0 then ''-'' @ str_nat (nat (- i)) else str_nat (nat i))"

definition page_url :: "int \<Rightarrow> string" where
  "page_url page_num = ''https://books.toscrape.com/catalogue/page-'' @ str_int page_num @ ''.html''"

text \<open>
  The three failures of the request in \<open>_process_page\<close> print different messages and all
  return \<open>None\<close>.
\<close>

definition process_page :: "session \<Rightarrow> int \<Rightarrow> nat \<Rightarrow> error + node option" where
  "process_page session page_num links_amount =
     (case session (page_url page_num) None of
        Response status markup \<Rightarrow>
          if raises_for_status status then
            (if status = NOT_FOUND_STATUS_CODE then Inr None else Inr None)
          else (case BeautifulSoup markup of Inl e \<Rightarrow> Inl e | Inr soup \<Rightarrow> Inr (Some soup))
      | ConnectionFailure \<Rightarrow> Inr None)"

text \<open>
  The request for a listing page fails; a listing page is fetched and parsed.
\<close>

definition fetch_fails :: "session \<Rightarrow> int \<Rightarrow> bool" where
  "fetch_fails session page_num =
     (case session (page_url page_num) None of
        ConnectionFailure \<Rightarrow> True
      | Response status markup \<Rightarrow> 400 \<le> status \<and> status < 600)"

definition page_parsed :: "session \<Rightarrow> int \<Rightarrow> bool" where
  "page_parsed session page_num =
     (case session (page_url page_num) None of
        ConnectionFailure \<Rightarrow> False
      | Response status markup \<Rightarrow>
          if 400 \<le> status \<and> status < 600 then False
          else (case markup of Document page \<Rightarrow> True | Rejected \<Rightarrow> False))"

definition base_url :: string where
  "base_url = ''https://books.toscrape.com/catalogue/''"

fun update_links :: "string set \<Rightarrow> node list \<Rightarrow> error + string set" where
  "update_links links [] = Inr links"
| "update_links links (a # rest) =
     (case subscript_href a of
        Inl e \<Rightarrow> Inl e
      | Inr href \<Rightarrow> update_links (insert (base_url @ href) links) rest)"

fun h3_loop :: "string set \<Rightarrow> node list \<Rightarrow> error + string set" where
  "h3_loop links [] = Inr links"
| "h3_loop links (h3 # rest) =
     (case update_links links (find_all h3 (Some ''a'') [Href_true]) of
        Inl e \<Rightarrow> Inl e
      | Inr links' \<Rightarrow> h3_loop links' rest)"

definition collect_links_from_page :: "node option \<Rightarrow> error + string set" where
  "collect_links_from_page soup =
     (case soup of
        None \<Rightarrow> Inr {}
      | Some page \<Rightarrow> h3_loop {} (find_all page (Some ''h3'') []))"

text \<open>
  The URLs of the anchors with an \<open>href\<close> below an element, and the detail URLs of a
  listing page: those of the anchors below its \<open>h3\<close> elements.
\<close>

definition anchor_urls :: "node \<Rightarrow> string set" where
  "anchor_urls e =
     {base_url @ href | href c i ch. Tag ''a'' c i (Some href) ch \<in> set (descendants e)}"

definition detail_urls :: "node \<Rightarrow> string set" where
  "detail_urls page =
     {''https://books.toscrape.com/catalogue/'' @ href | href c i ch c' i' h' ch'.
        Tag ''h3'' c' i' h' ch' \<in> set (descendants page)
        \<and> Tag ''a'' c i (Some href) ch \<in> set (descendants (Tag ''h3'' c' i' h' ch'))}"

text \<open>
  The loop over the listing pages ends when a page cannot be fetched, and by the exception
  of the parser: a run in which every page is fetched and parsed does not return, which is
  the value \<open>None\<close>.
\<close>

partial_function (option) links_loop ::
  "session \<Rightarrow> int \<Rightarrow> string set \<Rightarrow> (error + string set) option" where
  "links_loop session start_page_num links =
     (case process_page session start_page_num (card links) of
        Inl e \<Rightarrow> Some (Inl e)
      | Inr None \<Rightarrow> Some (Inr links)
      | Inr (Some current_page) \<Rightarrow>
          (case collect_links_from_page (Some current_page) of
             Inl e \<Rightarrow> Some (Inl e)
           | Inr new_links \<Rightarrow> links_loop session (start_page_num + 1) (links \<union> new_links)))"

definition collect_all_books_links :: "session \<Rightarrow> int \<Rightarrow> (error + string set) option" where
  "collect_all_books_links session start_page_num = links_loop session start_page_num {}"

subsection \<open>Batches\<close>

text \<open>
  The results of a batch are appended as the tasks complete. \<open>finish j\<close> is the instant at
  which the task submitted as number \<open>j\<close> of the whole run completes; tasks that complete
  at the same instant are taken in the order of submission. A result that is an exception
  is raised again by \<open>future.result()\<close>.
\<close>

fun collect_results :: "session \<Rightarrow> pydict list \<Rightarrow> string list \<Rightarrow> error + pydict list" where
  "collect_results session all_books_data [] = Inr all_books_data"
| "collect_results session all_books_data (link # rest) =
     (case get_book_data link session 10 of
        Inl e \<Rightarrow> Inl e
      | Inr book_data \<Rightarrow> collect_results session (all_books_data @ [book_data]) rest)"

definition as_completed :: "(nat \<Rightarrow> nat) \<Rightarrow> nat \<Rightarrow> string list \<Rightarrow> string list" where
  "as_completed finish i batch =
     map snd (sort_key (\<lambda>p. finish (fst p)) (zip [i..<i + length batch] batch))"

text \<open>
  \<open>time.sleep\<close> turns the pause into a number of nanoseconds, rounded away from zero,
  and refuses with \<open>OverflowError\<close> a number that does not fit 64 bits and with
  \<open>ValueError\<close> a negative one; \<open>None\<close> is having slept. The pause is a real number
  here, a floating-point number in the module.
\<close>

definition sleep :: "real \<Rightarrow> error option" where
  "sleep secs =
     (let ns = (if 0 \<le> secs then \<lceil>secs * 1000000000\<rceil> else \<lfloor>secs * 1000000000\<rfloor>) in
      if ns < - (2 ^ 63) \<or> 2 ^ 63 \<le> ns then Some OverflowError
      else if ns < 0 then Some ValueError
      else None)"

text \<open>A pool of no workers is refused with \<open>ValueError\<close> by \<open>ThreadPoolExecutor\<close>.\<close>

function batch_loop ::
  "string list \<Rightarrow> session \<Rightarrow> nat \<Rightarrow> real \<Rightarrow> int \<Rightarrow> (nat \<Rightarrow> nat) \<Rightarrow> nat \<Rightarrow> pydict list
     \<Rightarrow> error + pydict list" where
  "batch_loop links session batch_size delay max_workers finish i all_books_data =
     (if 0 < batch_size \<and> i < length links then
        (let batch = take batch_size (drop i links) in
         if max_workers \<le> 0 then Inl ValueError
         else
           (case collect_results session all_books_data (as_completed finish i batch) of
              Inl e \<Rightarrow> Inl e
            | Inr all_books_data' \<Rightarrow>
                (case sleep delay of
                   Some e \<Rightarrow> Inl e
                 | None \<Rightarrow>
                     batch_loop links session batch_size delay max_workers finish
                       (i + batch_size) all_books_data')))
      else Inr all_books_data)"
  by pat_completeness auto
termination
  by (relation "measure (\<lambda>(links, session, batch_size, delay, max_workers, finish, i, a).
        length links - i)") auto

declare batch_loop.simps [simp del]

text \<open>
  \<open>range(0, len(links), batch_size)\<close> raises \<open>ValueError\<close> for a step of zero and is
  empty for a negative step.
\<close>

definition process_books_in_batches ::
  "string list \<Rightarrow> session \<Rightarrow> int \<Rightarrow> real \<Rightarrow> int \<Rightarrow> (nat \<Rightarrow> nat) \<Rightarrow> error + pydict list" where
  "process_books_in_batches links session batch_size delay max_workers finish =
     (if batch_size = 0 then Inl ValueError
      else if batch_size < 0 then Inr []
      else batch_loop links session (nat batch_size) delay max_workers finish 0 [])"

subsection \<open>Saving\<close>

text \<open>A file system maps the names of the files that exist to their contents.\<close>

type_synonym filesystem = "string \<rightharpoonup> string"

text \<open>
  The header of a block is the f-string of the Cyrillic word for "book", a space, the
  numero sign and the number, with a newline; the bytes are its UTF-8 encoding.
\<close>

definition book_header :: "nat \<Rightarrow> string" where
  "book_header i =
     [CHR 0xD0, CHR 0x9A, CHR 0xD0, CHR 0xBD, CHR 0xD0, CHR 0xB8, CHR 0xD0, CHR 0xB3,
      CHR 0xD0, CHR 0xB0, CHR '' '', CHR 0xE2, CHR 0x84, CHR 0x96] @ str_nat i @ [CHR 0x0A]"

definition item_line :: "string \<times> string \<Rightarrow> string" where
  "item_line kv = fst kv @ '': '' @ snd kv @ [CHR 0x0A]"

definition writelines :: "string \<Rightarrow> string list \<Rightarrow> string" where
  "writelines f ls = fold (\<lambda>l buf. buf @ l) ls f"

fun write_books :: "nat \<Rightarrow> pydict list \<Rightarrow> string \<Rightarrow> string" where
  "write_books i [] f = f"
| "write_books i (book # rest) f =
     write_books (i + 1) rest (writelines (f @ book_header i) (map item_line book) @ [CHR 0x0A])"

text \<open>Opening the file for writing truncates it or creates it.\<close>

definition save_books_to_file :: "pydict list \<Rightarrow> string \<Rightarrow> filesystem \<Rightarrow> filesystem" where
  "save_books_to_file books filename fs = fs(filename \<mapsto> write_books 1 books [])"

subsection \<open>The whole run\<close>

text \<open>
  What a run does not decide: the answers of the site, the order in which \<open>list\<close>
  enumerates a set, and the instants at which the tasks complete.
\<close>

record world =
  session_of :: session
  set_order :: "string set \<Rightarrow> string list"
  finish_of :: "nat \<Rightarrow> nat"

definition scrape_books ::
  "world \<Rightarrow> bool \<Rightarrow> filesystem \<Rightarrow> (error + pydict list \<times> filesystem) option" where
  "scrape_books w save fs =
     (case collect_all_books_links (session_of w) 1 of
        None \<Rightarrow> None
      | Some (Inl e) \<Rightarrow> Some (Inl e)
      | Some (Inr all_books_links) \<Rightarrow>
          (case process_books_in_batches (set_order w all_books_links) (session_of w) 50 2 10
                  (finish_of w) of
             Inl e \<Rightarrow> Some (Inl e)
           | Inr all_books_data \<Rightarrow>
               Some (Inr (all_books_data,
                 if save then save_books_to_file all_books_data ''books_data.txt'' fs else fs))))"

section \<open>Example inputs\<close>

text \<open>
  The main block of a detail page: a heading, a price, the availability and a rating of
  three stars.
\<close>

definition main_block :: node where
  "main_block = Tag ''div'' (Some [''product_main'']) None None
     [Tag ''h1'' None None None [NavigableString ''A Book''],
      Tag ''p'' (Some [''price_color'']) None None [NavigableString ''51.77''],
      Tag ''p'' (Some [''instock'', ''availability'']) None None
        [NavigableString '' In stock (22 available) ''],
      Tag ''p'' (Some [''star-rating'', ''Three'']) None None []]"

text \<open>A table of additional information whose second row has no header cell.\<close>

definition info_table :: node where
  "info_table = Tag ''table'' (Some [''table'', ''table-striped'']) None None
     [Tag ''tr'' None None None
        [Tag ''th'' None None None [NavigableString ''UPC''],
         Tag ''td'' None None None [NavigableString ''abc'']],
      Tag ''tr'' None None None
        [Tag ''td'' None None None [NavigableString ''no header'']],
      Tag ''tr'' None None None
        [Tag ''th'' None None None [NavigableString ''Tax''],
         Tag ''td'' None None None [NavigableString ''0.00'']]]"

text \<open>A detail page: the main block, a description and the table.\<close>

definition book_page :: node where
  "book_page = Tag ''[document]'' None None None
     [main_block,
      Tag ''div'' (Some [''sub-header'']) (Some ''product_description'') None
        [Tag ''h2'' None None None [NavigableString ''Product Description'']],
      Tag ''p'' None None None [NavigableString ''A fine book.''],
      info_table]"

text \<open>A row with a header cell that has no text, and a page whose table is that row.\<close>

definition empty_header_row :: node where
  "empty_header_row = Tag ''tr'' None None None
     [Tag ''th'' None None None [],
      Tag ''td'' None None None [NavigableString ''x'']]"

definition empty_header_page :: node where
  "empty_header_page = Tag ''[document]'' None None None
     [Tag ''table'' (Some [''table'']) None None [empty_header_row]]"

text \<open>A detail page whose table has a row headed \<open>Book name\<close>.\<close>

definition clash_page :: node where
  "clash_page = Tag ''[document]'' None None None
     [main_block,
      Tag ''table'' (Some [''table'', ''table-striped'']) None None
        [Tag ''tr'' None None None
           [Tag ''th'' None None None [NavigableString ''Book name''],
            Tag ''td'' None None None [NavigableString ''Another'']]]]"

text \<open>A main block whose only paragraph has no \<open>class\<close> attribute.\<close>

definition plain_block :: node where
  "plain_block = Tag ''div'' (Some [''product_main'']) None None
     [Tag ''p'' None None None [NavigableString ''no rating'']]"

text \<open>A site that answers every request with a body that the parser rejects.\<close>

definition broken_site :: session where
  "broken_site = (\<lambda>url timeout. Response 200 Rejected)"

text \<open>A site that answers every request with the same page.\<close>

definition site :: "node \<Rightarrow> session" where
  "site page = (\<lambda>url timeout. Response 200 (Document page))"

text \<open>
  A catalogue of two listing pages that share one link; every other URL is not found.
\<close>

definition listing_page_1 :: node where
  "listing_page_1 = Tag ''[document]'' None None None
     [Tag ''h3'' None None None
        [Tag ''a'' None None (Some ''a_1/index.html'') [NavigableString ''A'']],
      Tag ''h3'' None None None
        [Tag ''a'' None None (Some ''b_2/index.html'') [NavigableString ''B'']]]"

definition listing_page_2 :: node where
  "listing_page_2 = Tag ''[document]'' None None None
     [Tag ''h3'' None None None
        [Tag ''a'' None None (Some ''b_2/index.html'') [NavigableString ''B'']],
      Tag ''h3'' None None None
        [Tag ''a'' None None (Some ''c_3/index.html'') [NavigableString ''C'']]]"

definition empty_page :: node where
  "empty_page = Tag ''[document]'' None None None []"

definition catalog :: session where
  "catalog = (\<lambda>url timeout.
     if url = ''https://books.toscrape.com/catalogue/page-1.html'' then Response 200 (Document listing_page_1)
     else if url = ''https://books.toscrape.com/catalogue/page-2.html'' then Response 200 (Document listing_page_2)
     else Response 404 (Document empty_page))"

text \<open>A catalogue whose first listing page has no anchors.\<close>

definition sparse_catalog :: session where
  "sparse_catalog = (\<lambda>url timeout.
     if url = ''https://books.toscrape.com/catalogue/page-1.html'' then Response 200 (Document empty_page)
     else if url = ''https://books.toscrape.com/catalogue/page-2.html'' then Response 200 (Document listing_page_2)
     else Response 404 (Document empty_page))"

text \<open>
  A shop with one listing page and the detail page of the first of its two books; the
  dictionary of that detail page.
\<close>

definition shop :: session where
  "shop = (\<lambda>url timeout.
     if url = ''https://books.toscrape.com/catalogue/page-1.html'' then Response 200 (Document listing_page_1)
     else if url = ''https://books.toscrape.com/catalogue/a_1/index.html'' then Response 200 (Document book_page)
     else Response 404 (Document empty_page))"

definition book_record :: pydict where
  "book_record =
     [(''Book name'', ''A Book''), (''Book price'', ''51.77''), (''In stock amount'', ''22''),
      (''Rate'', ''3''), (''Book description'', ''A fine book.''),
      (''UPC'', ''abc''), (''Tax'', ''0.00'')]"

text \<open>
  A run on the shop: sets are enumerated in a fixed order, and every task completes in the
  order of submission.
\<close>

definition shop_world :: world where
  "shop_world =
     \<lparr>session_of = shop,
      set_order = (\<lambda>S. filter (\<lambda>u. u \<in> S)
        [''https://books.toscrape.com/catalogue/a_1/index.html'',
         ''https://books.toscrape.com/catalogue/b_2/index.html'']),
      finish_of = (\<lambda>j. j)\<rparr>"

section \<open>Properties\<close>

subsection \<open>Searching the tree\<close>

lemmas search_defs = find_tag_def find_ctx_def find_all_def descendants_def descendants_ctx_def

lemmas text_defs = strip_def isspace_def isdigit_def re_search_digits_def char_len_def
  continuation_def whitespace_def decimal_zeros_def

lemma find_holds: "List.find P xs = Some x \<Longrightarrow> P x \<and> x \<in> set xs"
  by (induction xs) (auto split: if_splits)

lemma find_tag_matches: "find_tag e nm kw = Some t \<Longrightarrow> matches nm kw t"
  by (auto simp: find_tag_def find_ctx_def dest: find_holds)

lemma find_tag_descendant: "find_tag e nm kw = Some t \<Longrightarrow> t \<in> set (descendants e)"
  by (force simp: find_tag_def find_ctx_def descendants_def dest: find_holds)

lemma find_all_matches: "t \<in> set (find_all e nm kw) \<Longrightarrow> matches nm kw t"
  by (simp add: find_all_def)

lemma matches_star_rating:
  "matches nm [Class_str ''star-rating''] t \<Longrightarrow> \<exists>n cs i h ch. t = Tag n (Some cs) i h ch"
  by (cases t; cases "attr_class t") auto

lemma rate_loop_find:
  "rate_loop cs =
     (case List.find (\<lambda>c. c \<in> set [''Zero'', ''One'', ''Two'', ''Three'', ''Four'', ''Five'']) cs of
        None \<Rightarrow> []
      | Some c \<Rightarrow>
          if c = ''Zero'' then ''0'' else if c = ''One'' then ''1'' else if c = ''Two'' then ''2''
          else if c = ''Three'' then ''3'' else if c = ''Four'' then ''4'' else ''5'')"
  by (induction cs) (auto simp: rating_map_def)

lemma rate_loop_range: "rate_loop cs \<in> set ['''', ''0'', ''1'', ''2'', ''3'', ''4'', ''5'']"
  by (induction cs) (auto simp: rating_map_def)

lemma matches_class_filter:
  assumes "matches nm kw t" and "Class_str c \<in> set kw" and "c \<noteq> []"
  shows "\<exists>n cs i h ch. t = Tag n (Some cs) i h ch"
proof (cases t)
  case (Tag n cl i h ch)
  with assms(1,2) have "matches_class cl c"
    by (auto simp: list_all_iff)
  with assms(3) obtain cs where "cl = Some cs" by (cases cl) auto
  with Tag show ?thesis by blast
next
  case (NavigableString x)
  with assms(1) show ?thesis by simp
qed

lemma get_rate_found:
  "find_tag e (Some tag) kw = Some (Tag n (Some cs) i h ch) \<Longrightarrow>
   get_rate e tag kw = Inr (rate_loop cs)"
  "find_tag e (Some tag) kw = Some (Tag n None i h ch) \<Longrightarrow> get_rate e tag kw = Inl KeyError"
  "find_tag e (Some tag) kw = None \<Longrightarrow> get_rate e tag kw = Inr []"
  by (simp_all add: get_rate_def)

lemma get_rate_star_rating:
  "get_rate e tag [Class_str ''star-rating''] =
     Inr (case find_tag e (Some tag) [Class_str ''star-rating''] of
            None \<Rightarrow> []
          | Some rate_tag \<Rightarrow> rate_loop (case attr_class rate_tag of None \<Rightarrow> [] | Some cs \<Rightarrow> cs))"
proof (cases "find_tag e (Some tag) [Class_str ''star-rating'']")
  case None
  then show ?thesis by (simp add: get_rate_def)
next
  case (Some t)
  then obtain n cs i h ch where "t = Tag n (Some cs) i h ch"
    using find_tag_matches matches_star_rating by blast
  with Some show ?thesis by (simp add: get_rate_def)
qed

subsection \<open>Text\<close>

text \<open>
  \<open>strip\<close> removes a no-break space (\<open>U+00A0\<close>) and an em space (\<open>U+2003\<close>) as it
  removes a blank, and the digits found in a string may be Arabic-Indic ones
  (\<open>U+0663\<close>, \<open>U+0664\<close>).
\<close>

lemma strip_unicode_space:
  "strip ([CHR 0xC2, CHR 0xA0] @ '' A Book '' @ [CHR 0xE2, CHR 0x80, CHR 0x83]) = ''A Book''"
  by (simp add: text_defs)

lemma re_search_digits_unicode:
  "re_search_digits (''n='' @ [CHR 0xD9, CHR 0xA3, CHR 0xD9, CHR 0xA4] @ ''x'')
     = Some [CHR 0xD9, CHR 0xA3, CHR 0xD9, CHR 0xA4]"
  "re_search_digits ''In stock (22 available)'' = Some ''22''"
  "re_search_digits ''In stock'' = None"
  by (simp_all add: text_defs)

subsection \<open>The rating\<close>

lemma main_block_rating:
  "find_tag main_block (Some ''p'') [Class_str ''star-rating'']
     = Some (Tag ''p'' (Some [''star-rating'', ''Three'']) None None [])"
  by (simp add: main_block_def search_defs)

text \<open>
  C7, as the claim states it, fails: \<open>_get_rate\<close> raises for some inputs. Called with
  the tag \<open>p\<close> and no class filter on a block whose paragraph has no \<open>class\<close> attribute,
  it finds the paragraph and the subscript \<open>rate_tag["class"]\<close> raises \<open>KeyError\<close>.
\<close>

theorem get_rate_no_class_counterexample:
  "find_tag plain_block (Some ''p'') []
     = Some (Tag ''p'' None None None [NavigableString ''no rating''])
   \<and> get_rate plain_block ''p'' [] = Inl KeyError"
  by (simp add: get_rate_def plain_block_def search_defs)

text \<open>
  C7, amended. For every input: when the search finds no element, \<open>_get_rate\<close> returns the
  empty string; when the element found has a class list, it returns the digit that the table
  of six entries (\<open>Zero\<close> to \<open>Five\<close>) gives for the first class of the list that is in the
  table, and the empty string when no class of the list is in the table; when the element
  found has no \<open>class\<close> attribute, it raises \<open>KeyError\<close>. A search with a class filter
  that is not empty, as \<open>class_="star-rating"\<close> in \<open>get_book_data\<close>, finds only elements
  with a class list, so that the call never raises and returns the empty string or one of
  the digits \<open>0\<close> to \<open>5\<close>.
\<close>

theorem get_rate_lookup:
  "(find_tag e (Some tag) kwargs = None \<longrightarrow> get_rate e tag kwargs = Inr [])
   \<and> (\<forall>n classes i h ch.
         find_tag e (Some tag) kwargs = Some (Tag n (Some classes) i h ch) \<longrightarrow>
         get_rate e tag kwargs =
           Inr (case List.find
                  (\<lambda>c. c \<in> set [''Zero'', ''One'', ''Two'', ''Three'', ''Four'', ''Five''])
                  classes of
                  None \<Rightarrow> []
                | Some c \<Rightarrow>
                    if c = ''Zero'' then ''0'' else if c = ''One'' then ''1''
                    else if c = ''Two'' then ''2'' else if c = ''Three'' then ''3''
                    else if c = ''Four'' then ''4'' else ''5''))
   \<and> (\<forall>n i h ch.
         find_tag e (Some tag) kwargs = Some (Tag n None i h ch) \<longrightarrow>
         get_rate e tag kwargs = Inl KeyError)
   \<and> (\<forall>c. c \<noteq> [] \<and> Class_str c \<in> set kwargs \<longrightarrow>
         (\<exists>r. get_rate e tag kwargs = Inr r
            \<and> r \<in> set ['''', ''0'', ''1'', ''2'', ''3'', ''4'', ''5'']))"
proof (intro conjI allI impI)
  assume "find_tag e (Some tag) kwargs = None"
  then show "get_rate e tag kwargs = Inr []" by (rule get_rate_found)
next
  fix n classes i h ch
  assume "find_tag e (Some tag) kwargs = Some (Tag n (Some classes) i h ch)"
  then have "get_rate e tag kwargs = Inr (rate_loop classes)" by (rule get_rate_found)
  then show "get_rate e tag kwargs =
           Inr (case List.find
                  (\<lambda>c. c \<in> set [''Zero'', ''One'', ''Two'', ''Three'', ''Four'', ''Five''])
                  classes of
                  None \<Rightarrow> []
                | Some c \<Rightarrow>
                    if c = ''Zero'' then ''0'' else if c = ''One'' then ''1''
                    else if c = ''Two'' then ''2'' else if c = ''Three'' then ''3''
                    else if c = ''Four'' then ''4'' else ''5'')"
    by (simp only: rate_loop_find)
next
  fix n i h ch
  assume "find_tag e (Some tag) kwargs = Some (Tag n None i h ch)"
  then show "get_rate e tag kwargs = Inl KeyError" by (rule get_rate_found)
next
  fix c
  assume c: "c \<noteq> [] \<and> Class_str c \<in> set kwargs"
  show "\<exists>r. get_rate e tag kwargs = Inr r
            \<and> r \<in> set ['''', ''0'', ''1'', ''2'', ''3'', ''4'', ''5'']"
  proof (cases "find_tag e (Some tag) kwargs")
    case None
    then have "get_rate e tag kwargs = Inr []" by (rule get_rate_found)
    then show ?thesis by simp
  next
    case (Some t)
    then have "matches (Some tag) kwargs t" by (rule find_tag_matches)
    with c obtain n cs i h ch where "t = Tag n (Some cs) i h ch"
      using matches_class_filter by blast
    with Some have "get_rate e tag kwargs = Inr (rate_loop cs)"
      using get_rate_found(1) by blast
    with rate_loop_range [of cs] show ?thesis by blast
  qed
qed

theorem get_rate_lookup_witness:
  "find_tag main_block (Some ''p'') [Class_str ''star-rating'']
     = Some (Tag ''p'' (Some [''star-rating'', ''Three'']) None None [])
   \<and> ''star-rating'' \<noteq> [] \<and> Class_str ''star-rating'' \<in> set [Class_str ''star-rating'']
   \<and> get_rate main_block ''p'' [Class_str ''star-rating''] = Inr ''3''
   \<and> find_tag empty_page (Some ''p'') [Class_str ''star-rating''] = None
   \<and> get_rate empty_page ''p'' [Class_str ''star-rating''] = Inr []"
proof -
  have none: "find_tag empty_page (Some ''p'') [Class_str ''star-rating''] = None"
    by (simp add: empty_page_def search_defs)
  have m: "''star-rating'' \<noteq> [] \<and> Class_str ''star-rating'' \<in> set [Class_str ''star-rating'']"
    by simp
  from get_rate_lookup [of main_block "''p''" "[Class_str ''star-rating'']"] main_block_rating
  have "get_rate main_block ''p'' [Class_str ''star-rating''] = Inr ''3''" by simp
  moreover from get_rate_lookup [of empty_page "''p''" "[Class_str ''star-rating'']"] none
  have "get_rate empty_page ''p'' [Class_str ''star-rating''] = Inr []" by simp
  ultimately show ?thesis using main_block_rating none m by simp
qed

subsection \<open>Dictionaries\<close>

lemma update_fresh: "k \<notin> fst ` set al \<Longrightarrow> AList.update k v al = al @ [(k, v)]"
  by (induction al) auto

lemma dict_update_keys: "fst ` set (dict_update d other) = fst ` set d \<union> fst ` set other"
  unfolding dict_update_def by (induction other arbitrary: d) (auto simp: AList.dom_update)

lemma dict_update_distinct: "distinct (map fst d) \<Longrightarrow> distinct (map fst (dict_update d other))"
  unfolding dict_update_def by (induction other arbitrary: d) (auto simp: AList.distinct_update)

lemma dict_update_map_of:
  "map_of (dict_update d other) k =
     (case map_of (rev other) k of None \<Rightarrow> map_of d k | Some v \<Rightarrow> Some v)"
  unfolding dict_update_def
  by (induction other rule: rev_induct) (auto simp: AList.update_conv' split: option.splits)


lemma dict_update_length:
  "distinct (map fst d) \<Longrightarrow> distinct (map fst other) \<Longrightarrow>
   length (dict_update d other) = length d + card (fst ` set other - fst ` set d)"
proof -
  assume dd: "distinct (map fst d)" and "distinct (map fst other)"
  have "length (dict_update d other) = card (fst ` set (dict_update d other))"
    using dict_update_distinct [OF dd, of other] by (metis distinct_card length_map set_map)
  also have "\<dots> = card (fst ` set d \<union> (fst ` set other - fst ` set d))"
    by (simp add: dict_update_keys)
  also have "\<dots> = card (fst ` set d) + card (fst ` set other - fst ` set d)"
    by (rule card_Un_disjoint) auto
  also have "card (fst ` set d) = length d"
    using dd by (metis distinct_card length_map set_map)
  finally show ?thesis .
qed

subsection \<open>The table of additional information\<close>

lemma collect_additional_info_rows:
  "collect_additional_info soup = fold row_step (table_rows soup) []"
  by (simp add: collect_additional_info_def table_rows_def split: option.splits)

lemma row_step_keys:
  "fst ` set (row_step r d) = fst ` set d \<union> (if row_key r = [] then {} else {row_key r})"
  by (simp add: row_step_def Let_def AList.dom_update)

lemma fold_row_step_keys:
  "fst ` set (fold row_step rows d) = fst ` set d \<union> {k. k \<noteq> [] \<and> k \<in> row_key ` set rows}"
  by (induction rows arbitrary: d) (auto simp: row_step_keys split: if_splits)

lemma row_step_distinct: "distinct (map fst d) \<Longrightarrow> distinct (map fst (row_step r d))"
  by (simp add: row_step_def Let_def AList.distinct_update)

lemma fold_row_step_distinct:
  "distinct (map fst d) \<Longrightarrow> distinct (map fst (fold row_step rows d))"
  by (induction rows arbitrary: d) (auto simp: row_step_distinct)

lemma row_step_map_of:
  "map_of (row_step r d) k =
     (if row_key r = k \<and> k \<noteq> [] then Some (row_value r) else map_of d k)"
  by (auto simp: row_step_def Let_def AList.update_conv')

lemma fold_row_step_map_of:
  "map_of (fold row_step rows d) k =
     (if k = [] then map_of d k
      else case List.find (\<lambda>r. row_key r = k) (rev rows) of
             None \<Rightarrow> map_of d k
           | Some r \<Rightarrow> Some (row_value r))"
  by (induction rows rule: rev_induct) (auto simp: row_step_map_of)

lemma fold_row_step_fresh:
  "distinct (filter (\<lambda>k. k \<noteq> []) (map row_key rows)) \<Longrightarrow>
   fst ` set d \<inter> row_key ` set rows \<subseteq> {[]} \<Longrightarrow>
   fold row_step rows d = d @ map (\<lambda>r. (row_key r, row_value r)) (filter (\<lambda>r. row_key r \<noteq> []) rows)"
proof (induction rows arbitrary: d)
  case Nil
  then show ?case by simp
next
  case (Cons r rows)
  show ?case
  proof (cases "row_key r = []")
    case True
    then have "row_step r d = d" by (simp add: row_step_def)
    with Cons True show ?thesis by auto
  next
    case False
    with Cons.prems(2) have "row_key r \<notin> fst ` set d" by auto
    with False have step: "row_step r d = d @ [(row_key r, row_value r)]"
      by (simp add: row_step_def update_fresh)
    have d1: "distinct (filter (\<lambda>k. k \<noteq> []) (map row_key rows))"
      using Cons.prems(1) by (simp split: if_splits)
    have "row_key r \<notin> row_key ` set rows"
      using Cons.prems(1) False by (auto simp: image_iff)
    with Cons.prems(2) have d2: "fst ` set (row_step r d) \<inter> row_key ` set rows \<subseteq> {[]}"
      unfolding step by auto
    show ?thesis
      using Cons.IH [OF d1 d2] False by (simp add: step)
  qed
qed

lemma table_rows_book_page:
  "table_rows book_page =
     [Tag ''tr'' None None None
        [Tag ''th'' None None None [NavigableString ''UPC''],
         Tag ''td'' None None None [NavigableString ''abc'']],
      Tag ''tr'' None None None
        [Tag ''td'' None None None [NavigableString ''no header'']],
      Tag ''tr'' None None None
        [Tag ''th'' None None None [NavigableString ''Tax''],
         Tag ''td'' None None None [NavigableString ''0.00'']]]"
  by (simp add: table_rows_def book_page_def main_block_def info_table_def search_defs)

lemma row_key_simps:
  "row_key (Tag ''tr'' None None None
        [Tag ''th'' None None None [NavigableString ''UPC''],
         Tag ''td'' None None None [NavigableString ''abc'']]) = ''UPC''"
  "row_key (Tag ''tr'' None None None
        [Tag ''td'' None None None [NavigableString ''no header'']]) = []"
  "row_key (Tag ''tr'' None None None
        [Tag ''th'' None None None [NavigableString ''Tax''],
         Tag ''td'' None None None [NavigableString ''0.00'']]) = ''Tax''"
  "row_value (Tag ''tr'' None None None
        [Tag ''th'' None None None [NavigableString ''UPC''],
         Tag ''td'' None None None [NavigableString ''abc'']]) = ''abc''"
  "row_value (Tag ''tr'' None None None
        [Tag ''th'' None None None [NavigableString ''Tax''],
         Tag ''td'' None None None [NavigableString ''0.00'']]) = ''0.00''"
  by (simp_all add: row_key_def row_value_def get_text_def search_defs)

text \<open>
  C6, as the claim states it, fails: a row with a header cell and a data cell contributes
  no entry when the text of its header cell is empty. On a page whose table is the one row
  with an empty header cell and the data cell \<open>x\<close>, the dictionary is empty.
\<close>

theorem additional_info_empty_header_counterexample:
  "table_rows empty_header_page = [empty_header_row]
   \<and> find_tag empty_header_row (Some ''th'') [] = Some (Tag ''th'' None None None [])
   \<and> find_tag empty_header_row (Some ''td'') []
       = Some (Tag ''td'' None None None [NavigableString ''x''])
   \<and> collect_additional_info empty_header_page = []"
  by (simp add: collect_additional_info_def table_rows_def empty_header_page_def
      empty_header_row_def row_step_def row_key_def get_text_def search_defs)

text \<open>
  C6, amended. The dictionary of \<open>_collect_additional_info\<close> has distinct keys, which are
  the header texts of the rows that are not empty; under such a key it holds the text of
  the data cell (the empty string when the row has no data cell) of the last row with that
  header text; when the header texts that are not empty differ from each other, it has
  exactly one entry for each row with such a header text, in the order of the rows. A row
  with no header cell has the empty header text and changes nothing; the header text of a
  row is the text of its first header cell.
\<close>

theorem additional_info_rows:
  "distinct (map fst (collect_additional_info soup))
   \<and> fst ` set (collect_additional_info soup)
       = {k. k \<noteq> [] \<and> k \<in> row_key ` set (table_rows soup)}
   \<and> (\<forall>k. map_of (collect_additional_info soup) k =
         (if k = [] then None
          else map_option row_value (List.find (\<lambda>r. row_key r = k) (rev (table_rows soup)))))
   \<and> (distinct (filter (\<lambda>k. k \<noteq> []) (map row_key (table_rows soup))) \<longrightarrow>
        collect_additional_info soup =
          map (\<lambda>r. (row_key r, row_value r)) (filter (\<lambda>r. row_key r \<noteq> []) (table_rows soup)))
   \<and> (\<forall>r. find_tag r (Some ''th'') [] = None \<longrightarrow> row_key r = [] \<and> (\<forall>d. row_step r d = d))
   \<and> (\<forall>r h. find_tag r (Some ''th'') [] = Some h \<longrightarrow> row_key r = get_text h)
   \<and> (\<forall>r. row_value r =
         (case find_tag r (Some ''td'') [] of None \<Rightarrow> [] | Some c \<Rightarrow> get_text c))"
proof (intro conjI allI impI)
  show "distinct (map fst (collect_additional_info soup))"
    by (simp add: collect_additional_info_rows fold_row_step_distinct)
  show "fst ` set (collect_additional_info soup)
       = {k. k \<noteq> [] \<and> k \<in> row_key ` set (table_rows soup)}"
    by (simp add: collect_additional_info_rows fold_row_step_keys)
  show "map_of (collect_additional_info soup) k =
         (if k = [] then None
          else map_option row_value (List.find (\<lambda>r. row_key r = k) (rev (table_rows soup))))" for k
    by (simp add: collect_additional_info_rows fold_row_step_map_of split: option.splits)
  show "collect_additional_info soup =
          map (\<lambda>r. (row_key r, row_value r)) (filter (\<lambda>r. row_key r \<noteq> []) (table_rows soup))"
    if "distinct (filter (\<lambda>k. k \<noteq> []) (map row_key (table_rows soup)))"
    using fold_row_step_fresh [OF that, of "[]"] by (simp add: collect_additional_info_rows)
  show "row_key r = []" if "find_tag r (Some ''th'') [] = None" for r
    using that by (simp add: row_key_def)
  show "row_step r d = d" if "find_tag r (Some ''th'') [] = None" for r d
    using that by (simp add: row_key_def row_step_def)
  show "row_key r = get_text h" if "find_tag r (Some ''th'') [] = Some h" for r h
    using that by (simp add: row_key_def)
  show "row_value r = (case find_tag r (Some ''td'') [] of None \<Rightarrow> [] | Some c \<Rightarrow> get_text c)" for r
    by (simp add: row_value_def split: option.splits)
qed

theorem additional_info_rows_witness:
  "distinct (filter (\<lambda>k. k \<noteq> []) (map row_key (table_rows book_page)))
   \<and> find_tag (table_rows book_page ! 1) (Some ''th'') [] = None
   \<and> collect_additional_info book_page = [(''UPC'', ''abc''), (''Tax'', ''0.00'')]"
proof -
  have d: "distinct (filter (\<lambda>k. k \<noteq> []) (map row_key (table_rows book_page)))"
    by (simp add: table_rows_book_page row_key_simps)
  have n: "find_tag (table_rows book_page ! 1) (Some ''th'') [] = None"
    by (simp add: table_rows_book_page search_defs)
  from additional_info_rows [of book_page] d
  have "collect_additional_info book_page =
      map (\<lambda>r. (row_key r, row_value r)) (filter (\<lambda>r. row_key r \<noteq> []) (table_rows book_page))"
    by blast
  then have "collect_additional_info book_page = [(''UPC'', ''abc''), (''Tax'', ''0.00'')]"
    by (simp add: table_rows_book_page row_key_simps)
  with d n show ?thesis by simp
qed

subsection \<open>The dictionary of a book\<close>

lemma get_book_data_cases:
  "get_book_data u s t =
     (case get_book_response u s t of
        Inl e \<Rightarrow> Inl e
      | Inr None \<Rightarrow> Inr []
      | Inr (Some soup) \<Rightarrow>
          (case find_tag soup None [Class_str ''product_main''] of
             None \<Rightarrow> Inr []
           | Some main_info \<Rightarrow>
               Inr (dict_update
                 [(''Book name'', get_attr_text main_info ''h1'' []),
                  (''Book price'', get_attr_text main_info ''p'' [Class_str ''price_color'']),
                  (''In stock amount'', get_stock_amount
                     (get_attr_text main_info ''p'' [Class_list [''instock'', ''availability'']])),
                  (''Rate'',
                     case find_tag main_info (Some ''p'') [Class_str ''star-rating''] of
                       None \<Rightarrow> []
                     | Some rate_tag \<Rightarrow>
                         rate_loop (case attr_class rate_tag of None \<Rightarrow> [] | Some cs \<Rightarrow> cs)),
                  (''Book description'', collect_description soup)]
                 (collect_additional_info soup))))"
  by (simp add: get_book_data_def get_rate_star_rating split: option.splits sum.splits)






lemma main_block_find:
  "find_tag book_page None [Class_str ''product_main''] = Some main_block"
  "find_tag clash_page None [Class_str ''product_main''] = Some main_block"
  by (simp_all add: book_page_def clash_page_def main_block_def info_table_def search_defs)

lemma main_block_h1:
  "find_tag main_block (Some ''h1'') [] = Some (Tag ''h1'' None None None [NavigableString ''A Book''])"
  by (simp add: main_block_def search_defs)

lemma get_text_strip_h1:
  "get_text_strip (Tag ''h1'' None None None [NavigableString ''A Book'']) = ''A Book''"
  by (simp add: get_text_strip_def text_defs search_defs)

lemma main_block_fields:
  "get_attr_text main_block ''h1'' [] = ''A Book''"
  "get_attr_text main_block ''p'' [Class_str ''price_color''] = ''51.77''"
  "get_stock_amount (get_attr_text main_block ''p'' [Class_list [''instock'', ''availability'']]) = ''22''"
  "get_rate main_block ''p'' [Class_str ''star-rating''] = Inr ''3''"
  by (simp_all add: main_block_def get_attr_text_def get_text_strip_def text_defs
      get_stock_amount_def get_rate_def rating_map_def search_defs)

lemma book_page_description: "collect_description book_page = ''A fine book.''"
  by (simp add: collect_description_def book_page_def main_block_def info_table_def
      find_next_sibling_def get_text_strip_def text_defs search_defs)

lemma clash_page_description: "collect_description clash_page = []"
  by (simp add: collect_description_def clash_page_def main_block_def search_defs)

lemma clash_page_rows:
  "table_rows clash_page =
     [Tag ''tr'' None None None
           [Tag ''th'' None None None [NavigableString ''Book name''],
            Tag ''td'' None None None [NavigableString ''Another'']]]"
  by (simp add: table_rows_def clash_page_def main_block_def search_defs)

lemma clash_page_info: "collect_additional_info clash_page = [(''Book name'', ''Another'')]"
  by (simp add: collect_additional_info_rows clash_page_rows row_step_def row_key_def
      row_value_def get_text_def search_defs)

text \<open>
  C1, as the claim states it, fails: on a fetched page with a main block whose heading is
  \<open>A Book\<close> and whose table has the one row headed \<open>Book name\<close>, the dictionary has five
  entries, not six, and its \<open>Book name\<close> is the data cell of the row, not the heading.
\<close>

theorem get_book_data_name_counterexample:
  "get_book_response ''u'' (site clash_page) 10 = Inr (Some clash_page)
   \<and> find_tag clash_page None [Class_str ''product_main''] = Some main_block
   \<and> find_tag main_block (Some ''h1'') [] = Some (Tag ''h1'' None None None [NavigableString ''A Book''])
   \<and> get_text_strip (Tag ''h1'' None None None [NavigableString ''A Book'']) = ''A Book''
   \<and> length (table_rows clash_page) = 1
   \<and> get_book_data ''u'' (site clash_page) 10 =
       Inr [(''Book name'', ''Another''), (''Book price'', ''51.77''), (''In stock amount'', ''22''),
            (''Rate'', ''3''), (''Book description'', '''')]"
  by (simp add: get_book_data_def get_book_response_def site_def raises_for_status_def
      BeautifulSoup_def main_block_find main_block_h1 get_text_strip_h1 main_block_fields clash_page_description
      clash_page_rows clash_page_info dict_update_def)

text \<open>
  C1, amended. For a page that is fetched and has a main block, \<open>get_book_data\<close> returns
  a dictionary with distinct keys, which are the five fixed keys and the header texts of
  the table's rows that are not empty; it has five entries and one more for each such header
  text that is not a fixed key; and when no row is headed \<open>Book name\<close>, its
  \<open>Book name\<close> is the stripped text of the first heading of the main block (the empty
  string when there is none).
\<close>

theorem get_book_data_record:
  assumes "get_book_response u s t = Inr (Some soup)"
    and "find_tag soup None [Class_str ''product_main''] = Some main_info"
  shows "\<exists>d. get_book_data u s t = Inr d
     \<and> distinct (map fst d)
     \<and> fst ` set d =
         {''Book name'', ''Book price'', ''In stock amount'', ''Rate'', ''Book description''}
         \<union> {k. k \<noteq> [] \<and> k \<in> row_key ` set (table_rows soup)}
     \<and> length d = 5 + card ({k. k \<noteq> [] \<and> k \<in> row_key ` set (table_rows soup)}
         - {''Book name'', ''Book price'', ''In stock amount'', ''Rate'', ''Book description''})
     \<and> (''Book name'' \<notin> row_key ` set (table_rows soup) \<longrightarrow>
          map_of d ''Book name'' =
            Some (case find_tag main_info (Some ''h1'') [] of
                    None \<Rightarrow> []
                  | Some heading \<Rightarrow> get_text_strip heading))"
proof -
  define fixed where "fixed =
     [(''Book name'', get_attr_text main_info ''h1'' []),
      (''Book price'', get_attr_text main_info ''p'' [Class_str ''price_color'']),
      (''In stock amount'', get_stock_amount
         (get_attr_text main_info ''p'' [Class_list [''instock'', ''availability'']])),
      (''Rate'',
         case find_tag main_info (Some ''p'') [Class_str ''star-rating''] of
           None \<Rightarrow> []
         | Some rate_tag \<Rightarrow>
             rate_loop (case attr_class rate_tag of None \<Rightarrow> [] | Some cs \<Rightarrow> cs)),
      (''Book description'', collect_description soup)]"
  define info where "info = collect_additional_info soup"
  define d where "d = dict_update fixed info"
  have res: "get_book_data u s t = Inr d"
    using assms by (simp add: get_book_data_cases d_def fixed_def info_def)
  have fk: "fst ` set fixed =
      {''Book name'', ''Book price'', ''In stock amount'', ''Rate'', ''Book description''}"
    by (simp add: fixed_def)
  have fd: "distinct (map fst fixed)" by (simp add: fixed_def)
  have ik: "fst ` set info = {k. k \<noteq> [] \<and> k \<in> row_key ` set (table_rows soup)}"
    by (simp add: info_def collect_additional_info_rows fold_row_step_keys)
  have idist: "distinct (map fst info)"
    by (simp add: info_def collect_additional_info_rows fold_row_step_distinct)
  have c1: "distinct (map fst d)" unfolding d_def using fd by (rule dict_update_distinct)
  have c2: "fst ` set d =
         {''Book name'', ''Book price'', ''In stock amount'', ''Rate'', ''Book description''}
         \<union> {k. k \<noteq> [] \<and> k \<in> row_key ` set (table_rows soup)}"
    by (simp only: d_def dict_update_keys fk ik)
  have "length d = length fixed + card (fst ` set info - fst ` set fixed)"
    unfolding d_def using fd idist by (rule dict_update_length)
  then have c3: "length d = 5 + card ({k. k \<noteq> [] \<and> k \<in> row_key ` set (table_rows soup)}
         - {''Book name'', ''Book price'', ''In stock amount'', ''Rate'', ''Book description''})"
    by (simp only: fk ik) (simp add: fixed_def)
  have c4: "map_of d ''Book name'' =
            Some (case find_tag main_info (Some ''h1'') [] of
                    None \<Rightarrow> []
                  | Some heading \<Rightarrow> get_text_strip heading)"
    if "''Book name'' \<notin> row_key ` set (table_rows soup)"
  proof -
    from that ik have "''Book name'' \<notin> fst ` set (rev info)" by simp
    then have "map_of (rev info) ''Book name'' = None"
      by (simp add: map_of_eq_None_iff)
    then have "map_of d ''Book name'' = map_of fixed ''Book name''"
      by (simp add: d_def dict_update_map_of)
    then show ?thesis
      by (simp add: fixed_def get_attr_text_def split: option.splits)
  qed
  from res c1 c2 c3 c4 show ?thesis by blast
qed

theorem get_book_data_record_witness:
  "get_book_response ''u'' (site book_page) 10 = Inr (Some book_page)
   \<and> find_tag book_page None [Class_str ''product_main''] = Some main_block
   \<and> ''Book name'' \<notin> row_key ` set (table_rows book_page)
   \<and> get_book_data ''u'' (site book_page) 10 =
       Inr [(''Book name'', ''A Book''), (''Book price'', ''51.77''), (''In stock amount'', ''22''),
            (''Rate'', ''3''), (''Book description'', ''A fine book.''),
            (''UPC'', ''abc''), (''Tax'', ''0.00'')]
   \<and> (\<exists>d. get_book_data ''u'' (site book_page) 10 = Inr d \<and> length d = 7
          \<and> map_of d ''Book name'' = Some ''A Book'')"
proof -
  have r: "get_book_response ''u'' (site book_page) 10 = Inr (Some book_page)"
    by (simp add: get_book_response_def site_def raises_for_status_def BeautifulSoup_def)
  have m: "find_tag book_page None [Class_str ''product_main''] = Some main_block"
    by (rule main_block_find)
  have n: "''Book name'' \<notin> row_key ` set (table_rows book_page)"
    by (simp add: table_rows_book_page row_key_simps)
  have v: "get_book_data ''u'' (site book_page) 10 =
       Inr [(''Book name'', ''A Book''), (''Book price'', ''51.77''), (''In stock amount'', ''22''),
            (''Rate'', ''3''), (''Book description'', ''A fine book.''),
            (''UPC'', ''abc''), (''Tax'', ''0.00'')]"
    by (simp add: get_book_data_def r m main_block_fields book_page_description
        collect_additional_info_rows table_rows_book_page row_step_def row_key_simps dict_update_def)
  from get_book_data_record [OF r m] n
  obtain d where "get_book_data ''u'' (site book_page) 10 = Inr d"
    and "map_of d ''Book name'' =
            Some (case find_tag main_block (Some ''h1'') [] of
                    None \<Rightarrow> []
                  | Some heading \<Rightarrow> get_text_strip heading)"
    by blast
  with v have "\<exists>d. get_book_data ''u'' (site book_page) 10 = Inr d \<and> length d = 7
          \<and> map_of d ''Book name'' = Some ''A Book''"
    by (simp add: main_block_h1 get_text_strip_h1)
  with r m n v show ?thesis by simp
qed

subsection \<open>The links of a listing page\<close>

lemma matches_name: "matches (Some nm) kw t \<Longrightarrow> \<exists>c i h ch. t = Tag nm c i h ch"
  by (cases t) auto

lemma matches_name_only: "matches (Some nm) [] (Tag n c i h ch) = (n = nm)"
  by auto

lemma matches_anchor: "matches (Some nm) [Href_true] (Tag n c i h ch) = (n = nm \<and> h \<noteq> None)"
  by (cases h) auto

lemma update_links_hrefs:
  "list_all (matches (Some ''a'') [Href_true]) anchors \<Longrightarrow>
   update_links links anchors =
     Inr (links \<union> {base_url @ href | href c i ch. Tag ''a'' c i (Some href) ch \<in> set anchors})"
proof (induction anchors arbitrary: links)
  case Nil
  then show ?case by simp
next
  case (Cons a anchors)
  from Cons.prems obtain c i h ch where a: "a = Tag ''a'' c i (Some h) ch"
    by (cases a) (auto split: option.splits)
  have "insert (base_url @ h) links
         \<union> {base_url @ href | href c i ch. Tag ''a'' c i (Some href) ch \<in> set anchors}
      = links \<union> {base_url @ href | href c i ch. Tag ''a'' c i (Some href) ch \<in> set (a # anchors)}"
    unfolding a by auto
  with Cons show ?case by (simp add: a)
qed

lemma find_all_anchors:
  "Tag n c i h ch \<in> set (find_all e (Some ''a'') [Href_true])
     = (n = ''a'' \<and> h \<noteq> None \<and> Tag n c i h ch \<in> set (descendants e))"
  unfolding find_all_def set_filter mem_Collect_eq matches_anchor by blast

lemma h3_links:
  "update_links links (find_all h3 (Some ''a'') [Href_true]) = Inr (links \<union> anchor_urls h3)"
proof -
  have "list_all (matches (Some ''a'') [Href_true]) (find_all h3 (Some ''a'') [Href_true])"
    by (simp add: find_all_def list_all_iff)
  from update_links_hrefs [OF this]
  show ?thesis by (simp add: find_all_anchors anchor_urls_def)
qed

lemma h3_loop_links:
  "h3_loop links h3s = Inr (links \<union> (\<Union>h3 \<in> set h3s. anchor_urls h3))"
  by (induction h3s arbitrary: links) (simp_all add: h3_links Un_assoc)

lemma matches_h3: "matches (Some ''h3'') [] t = (\<exists>c i h ch. t = Tag ''h3'' c i h ch)"
  by (cases t) auto

lemma detail_urls_find_all:
  "detail_urls page = (\<Union>h3 \<in> set (find_all page (Some ''h3'') []). anchor_urls h3)"
proof (rule set_eqI)
  fix x
  show "x \<in> detail_urls page
      \<longleftrightarrow> x \<in> (\<Union>h3 \<in> set (find_all page (Some ''h3'') []). anchor_urls h3)"
  proof
    assume "x \<in> detail_urls page"
    then obtain href c i ch c' i' h' ch' where
      x: "x = ''https://books.toscrape.com/catalogue/'' @ href"
      and h3: "Tag ''h3'' c' i' h' ch' \<in> set (descendants page)"
      and a: "Tag ''a'' c i (Some href) ch \<in> set (descendants (Tag ''h3'' c' i' h' ch'))"
      unfolding detail_urls_def by blast
    from h3 have "Tag ''h3'' c' i' h' ch' \<in> set (find_all page (Some ''h3'') [])"
      by (simp add: find_all_def)
    moreover from x a have "x \<in> anchor_urls (Tag ''h3'' c' i' h' ch')"
      unfolding anchor_urls_def base_url_def by blast
    ultimately show "x \<in> (\<Union>h3 \<in> set (find_all page (Some ''h3'') []). anchor_urls h3)"
      by blast
  next
    assume "x \<in> (\<Union>h3 \<in> set (find_all page (Some ''h3'') []). anchor_urls h3)"
    then obtain h3 where m: "h3 \<in> set (find_all page (Some ''h3'') [])" and xa: "x \<in> anchor_urls h3"
      by blast
    from m have d: "h3 \<in> set (descendants page)" and "matches (Some ''h3'') [] h3"
      by (simp_all add: find_all_def)
    then obtain c' i' h' ch' where t: "h3 = Tag ''h3'' c' i' h' ch'"
      unfolding matches_h3 by blast
    from xa obtain href c i ch where
      x: "x = ''https://books.toscrape.com/catalogue/'' @ href"
      and a: "Tag ''a'' c i (Some href) ch \<in> set (descendants h3)"
      unfolding anchor_urls_def base_url_def by blast
    from x a d show "x \<in> detail_urls page"
      unfolding detail_urls_def t by blast
  qed
qed

lemma collect_links_detail_urls: "collect_links_from_page (Some page) = Inr (detail_urls page)"
  by (simp add: collect_links_from_page_def h3_loop_links detail_urls_find_all)

text \<open>
  C9. \<open>_collect_links_from_page\<close> does not raise, and the set it returns for a listing
  page is exactly the fixed prefix \<open>https://books.toscrape.com/catalogue/\<close> followed by
  the \<open>href\<close>, for every anchor that has an \<open>href\<close> and lies below an \<open>h3\<close> element
  of the page.
\<close>

theorem collect_links_from_page_hrefs:
  "collect_links_from_page (Some soup) =
     Inr {''https://books.toscrape.com/catalogue/'' @ href | href c i ch c' i' h' ch'.
        Tag ''h3'' c' i' h' ch' \<in> set (descendants soup)
        \<and> Tag ''a'' c i (Some href) ch \<in> set (descendants (Tag ''h3'' c' i' h' ch'))}"
  using collect_links_detail_urls [of soup] by (simp add: detail_urls_def)

subsection \<open>The loop over the listing pages\<close>

lemma finite_detail_urls: "finite (detail_urls page)"
proof -
  have "detail_urls page \<subseteq>
      (\<lambda>a. ''https://books.toscrape.com/catalogue/'' @ (case attr_href a of None \<Rightarrow> [] | Some h \<Rightarrow> h))
        ` (\<Union>h3 \<in> set (descendants page). set (descendants h3))"
    unfolding detail_urls_def by force
  moreover have "finite ((\<lambda>a. ''https://books.toscrape.com/catalogue/'' @ (case attr_href a of None \<Rightarrow> [] | Some h \<Rightarrow> h))
        ` (\<Union>h3 \<in> set (descendants page). set (descendants h3)))"
    by simp
  ultimately show ?thesis by (rule finite_subset)
qed

lemma process_page_amount: "process_page s n a = process_page s n 0"
  by (simp add: process_page_def)

lemma process_page_cases:
  "process_page s n a =
     (case s (page_url n) None of
        ConnectionFailure \<Rightarrow> Inr None
      | Response status markup \<Rightarrow>
          if 400 \<le> status \<and> status < 600 then Inr None
          else (case markup of
                  Document page \<Rightarrow> Inr (Some page)
                | Rejected \<Rightarrow> Inl ParserRejectedMarkup))"
  by (auto simp: process_page_def raises_for_status_def BeautifulSoup_def
      NOT_FOUND_STATUS_CODE_def split: fetch_result.splits body.splits)

lemma process_page_None: "(process_page s n a = Inr None) = fetch_fails s n"
  by (simp add: process_page_cases fetch_fails_def split: fetch_result.splits body.splits)

lemma process_page_parsed: "(\<exists>page. process_page s n a = Inr (Some page)) = page_parsed s n"
  by (simp add: process_page_cases page_parsed_def split: fetch_result.splits body.splits)

lemma process_page_Some:
  "s (page_url n) None = Response status (Document page) \<Longrightarrow>
   \<not> (400 \<le> status \<and> status < 600) \<Longrightarrow>
   process_page s n a = Inr (Some page)"
  by (simp add: process_page_cases)

lemma links_loop_step:
  "links_loop s n links =
     (case process_page s n 0 of
        Inl e \<Rightarrow> Some (Inl e)
      | Inr None \<Rightarrow> Some (Inr links)
      | Inr (Some page) \<Rightarrow> links_loop s (n + 1) (links \<union> detail_urls page))"
  by (subst links_loop.simps)
     (simp add: process_page_amount [of s n "card links"] collect_links_detail_urls
        split: option.splits sum.splits)

lemma links_loop_ends:
  "(\<And>j. j < k \<Longrightarrow> process_page s (n + int j) 0 = Inr (Some (pages j))) \<Longrightarrow>
   (\<And>page. process_page s (n + int k) 0 \<noteq> Inr (Some page)) \<Longrightarrow>
   links_loop s n links =
     Some (case process_page s (n + int k) 0 of
             Inl e \<Rightarrow> Inl e
           | Inr r \<Rightarrow> Inr (links \<union> (\<Union>j<k. detail_urls (pages j))))"
proof (induction k arbitrary: n links pages)
  case 0
  then show ?case
    by (subst links_loop_step) (auto split: sum.splits option.splits)
next
  case (Suc k)
  have first: "process_page s n 0 = Inr (Some (pages 0))" using Suc.prems(1) [of 0] by simp
  have rest: "process_page s (n + 1 + int j) 0 = Inr (Some (pages (Suc j)))" if "j < k" for j
    using Suc.prems(1) [of "Suc j"] that by (simp add: add.assoc)
  have last: "process_page s (n + 1 + int k) 0 \<noteq> Inr (Some page)" for page
    using Suc.prems(2) [of page] by (simp add: add.assoc)
  have eq: "process_page s (n + 1 + int k) 0 = process_page s (n + int (Suc k)) 0"
    by (simp add: add.assoc)
  have un: "(\<Union>j<Suc k. detail_urls (pages j))
      = detail_urls (pages 0) \<union> (\<Union>j<k. detail_urls (pages (Suc j)))"
    by (auto simp: less_Suc_eq_0_disj)
  have step: "links_loop s n links = links_loop s (n + 1) (links \<union> detail_urls (pages 0))"
    by (subst links_loop_step) (simp add: first)
  have "links_loop s (n + 1) (links \<union> detail_urls (pages 0)) =
      Some (case process_page s (n + 1 + int k) 0 of
              Inl e \<Rightarrow> Inl e
            | Inr r \<Rightarrow> Inr (links \<union> detail_urls (pages 0)
                          \<union> (\<Union>j<k. detail_urls (pages (Suc j)))))"
    by (rule Suc.IH [of "n + 1" "\<lambda>j. pages (Suc j)", OF rest last])
  then show ?case
    by (simp only: step eq un Un_assoc)
qed

lemma links_loop_stops:
  assumes "\<And>j. j < k \<Longrightarrow> process_page s (n + int j) 0 = Inr (Some (pages j))"
    and "process_page s (n + int k) 0 = Inr None"
  shows "links_loop s n links = Some (Inr (links \<union> (\<Union>j<k. detail_urls (pages j))))"
proof -
  from assms(2) have "process_page s (n + int k) 0 \<noteq> Inr (Some page)" for page by simp
  from links_loop_ends [of k s n pages links, OF assms(1) this] assms(2)
  show ?thesis by simp
qed

lemma links_loop_returns:
  "links_loop s n links = Some r \<Longrightarrow>
   \<exists>k. (\<forall>j<k. \<exists>page. process_page s (n + int j) 0 = Inr (Some page))
     \<and> (case r of
          Inl e \<Rightarrow> process_page s (n + int k) 0 = Inl e
        | Inr S \<Rightarrow> process_page s (n + int k) 0 = Inr None)"
proof (induction rule: links_loop.raw_induct [rotated 1, consumes 1])
  case (1 loop s n links r)
  show ?case
  proof (cases "process_page s n 0")
    case (Inl e)
    with 1(2) have "r = Inl e"
      by (simp add: process_page_amount [of s n "card links"])
    with Inl have "(\<forall>j<0. \<exists>page. process_page s (n + int j) 0 = Inr (Some page))
       \<and> (case r of
            Inl e \<Rightarrow> process_page s (n + int 0) 0 = Inl e
          | Inr S \<Rightarrow> process_page s (n + int 0) 0 = Inr None)"
      by simp
    then show ?thesis by blast
  next
    case (Inr res)
    show ?thesis
    proof (cases res)
      case None
      with Inr 1(2) have "r = Inr links"
        by (simp add: process_page_amount [of s n "card links"])
      with Inr None have "(\<forall>j<0. \<exists>page. process_page s (n + int j) 0 = Inr (Some page))
         \<and> (case r of
              Inl e \<Rightarrow> process_page s (n + int 0) 0 = Inl e
            | Inr S \<Rightarrow> process_page s (n + int 0) 0 = Inr None)"
        by simp
      then show ?thesis by blast
    next
      case (Some page)
      with Inr 1(2) have "loop s (n + 1) (links \<union> detail_urls page) = Some r"
        by (simp add: process_page_amount [of s n "card links"] collect_links_detail_urls)
      from 1(1) [OF this] obtain k where
        before: "\<forall>j<k. \<exists>page. process_page s (n + 1 + int j) 0 = Inr (Some page)"
        and at: "case r of
            Inl e \<Rightarrow> process_page s (n + 1 + int k) 0 = Inl e
          | Inr S \<Rightarrow> process_page s (n + 1 + int k) 0 = Inr None"
        by blast
      have "\<exists>page. process_page s (n + int j) 0 = Inr (Some page)" if "j < Suc k" for j
      proof (cases j)
        case 0
        with Inr Some show ?thesis by simp
      next
        case (Suc i)
        with that before have "\<exists>page. process_page s (n + 1 + int i) 0 = Inr (Some page)"
          by simp
        with Suc show ?thesis by (simp add: add.assoc)
      qed
      moreover have "n + 1 + int k = n + int (Suc k)" by simp
      with at have "case r of
            Inl e \<Rightarrow> process_page s (n + int (Suc k)) 0 = Inl e
          | Inr S \<Rightarrow> process_page s (n + int (Suc k)) 0 = Inr None"
        by (simp only:)
      ultimately show ?thesis by blast
    qed
  qed
qed

text \<open>
  C3. When the pages 1 to \<open>P\<close> of the catalogue are fetched and the page \<open>P + 1\<close> is not
  found, \<open>_collect_all_books_links\<close> returns, and the set it returns is the finite set of
  the detail URLs of the \<open>P\<close> pages, so that its size is the number of different detail
  URLs on them.
\<close>

theorem collect_all_books_links_catalog:
  assumes "\<And>k. k < P \<Longrightarrow>
      \<exists>status. session (page_url (1 + int k)) None = Response status (Document (pages k))
        \<and> \<not> (400 \<le> status \<and> status < 600)"
    and "session (page_url (1 + int P)) None = Response 404 body"
  shows "\<exists>links. collect_all_books_links session 1 = Some (Inr links)
     \<and> links = (\<Union>k<P. detail_urls (pages k))
     \<and> finite links
     \<and> card links = card (\<Union>k<P. detail_urls (pages k))"
proof -
  have ok: "process_page session (1 + int j) 0 = Inr (Some (pages j))" if "j < P" for j
    using assms(1) [OF that] process_page_Some by blast
  have stop: "process_page session (1 + int P) 0 = Inr None"
    using assms(2) by (simp add: process_page_cases)
  have "links_loop session 1 {} = Some (Inr ({} \<union> (\<Union>j<P. detail_urls (pages j))))"
    using ok stop by (rule links_loop_stops)
  then have "collect_all_books_links session 1 = Some (Inr (\<Union>k<P. detail_urls (pages k)))"
    by (simp add: collect_all_books_links_def)
  moreover have "finite (\<Union>k<P. detail_urls (pages k))"
    by (simp add: finite_detail_urls)
  ultimately show ?thesis by simp
qed

lemma page_url_simps:
  "page_url 1 = ''https://books.toscrape.com/catalogue/page-1.html''"
  "page_url 2 = ''https://books.toscrape.com/catalogue/page-2.html''"
  "page_url 3 = ''https://books.toscrape.com/catalogue/page-3.html''"
  by (simp_all add: page_url_def str_int_def str_nat.simps)

lemma listing_page_urls:
  "detail_urls listing_page_1 =
     {''https://books.toscrape.com/catalogue/a_1/index.html'',
      ''https://books.toscrape.com/catalogue/b_2/index.html''}"
  "detail_urls listing_page_2 =
     {''https://books.toscrape.com/catalogue/b_2/index.html'',
      ''https://books.toscrape.com/catalogue/c_3/index.html''}"
  "detail_urls empty_page = {}"
  using collect_links_detail_urls [of listing_page_1, symmetric]
    collect_links_detail_urls [of listing_page_2, symmetric]
    collect_links_detail_urls [of empty_page, symmetric]
  by (simp_all add: collect_links_from_page_def listing_page_1_def listing_page_2_def
      empty_page_def base_url_def search_defs insert_commute)

theorem collect_all_books_links_catalog_witness:
  "catalog (page_url 1) None = Response 200 (Document listing_page_1)
   \<and> catalog (page_url 2) None = Response 200 (Document listing_page_2)
   \<and> catalog (page_url 3) None = Response 404 (Document empty_page)
   \<and> collect_all_books_links catalog 1 =
       Some (Inr {''https://books.toscrape.com/catalogue/a_1/index.html'',
                  ''https://books.toscrape.com/catalogue/b_2/index.html'',
                  ''https://books.toscrape.com/catalogue/c_3/index.html''})"
proof -
  have p1: "catalog (page_url 1) None = Response 200 (Document listing_page_1)"
    and p2: "catalog (page_url 2) None = Response 200 (Document listing_page_2)"
    and p3: "catalog (page_url 3) None = Response 404 (Document empty_page)"
    by (simp_all add: catalog_def page_url_simps)
  have ok: "\<exists>status. catalog (page_url (1 + int k)) None
        = Response status (Document ((\<lambda>k. if k = 0 then listing_page_1 else listing_page_2) k))
        \<and> \<not> (400 \<le> status \<and> status < 600)" if "k < 2" for k
  proof -
    from that have "k = 0 \<or> k = 1" by auto
    then show ?thesis using p1 p2 by auto
  qed
  have stop: "catalog (page_url (1 + int 2)) None = Response 404 (Document empty_page)"
    using p3 by simp
  have two: "(\<Union>k<(2::nat). detail_urls (if k = 0 then listing_page_1 else listing_page_2))
      = detail_urls listing_page_1 \<union> detail_urls listing_page_2"
    by (auto simp: less_2_cases_iff)
  from collect_all_books_links_catalog [of 2 catalog "\<lambda>k. if k = 0 then listing_page_1 else listing_page_2", OF ok stop]
  have "collect_all_books_links catalog 1 =
      Some (Inr (detail_urls listing_page_1 \<union> detail_urls listing_page_2))"
    unfolding two by blast
  then have "collect_all_books_links catalog 1 =
       Some (Inr {''https://books.toscrape.com/catalogue/a_1/index.html'',
                  ''https://books.toscrape.com/catalogue/b_2/index.html'',
                  ''https://books.toscrape.com/catalogue/c_3/index.html''})"
    by (simp add: listing_page_urls insert_commute)
  with p1 p2 p3 show ?thesis by simp
qed

lemma links_loop_ends_returns:
  assumes "\<not> page_parsed s (n + int k)"
  shows "\<exists>r. links_loop s n links = Some r"
proof -
  define m where "m = (LEAST j. \<not> page_parsed s (n + int j))"
  have stop: "\<not> page_parsed s (n + int m)"
    unfolding m_def using assms by (rule LeastI)
  then have stop': "process_page s (n + int m) 0 \<noteq> Inr (Some page)" for page
    using process_page_parsed [of s "n + int m" 0] by blast
  have ok: "process_page s (n + int j) 0
      = Inr (Some (the (projr (process_page s (n + int j) 0))))" if "j < m" for j
  proof -
    from that have "page_parsed s (n + int j)"
      unfolding m_def using not_less_Least by blast
    then obtain page where "process_page s (n + int j) 0 = Inr (Some page)"
      using process_page_parsed [of s "n + int j" 0] by blast
    then show ?thesis by simp
  qed
  from links_loop_ends [of m s n "\<lambda>j. the (projr (process_page s (n + int j) 0))" links,
      OF ok stop']
  show ?thesis by blast
qed

lemma links_loop_fails_returns:
  assumes "fetch_fails s (n + int k)" and "\<And>j. j < k \<Longrightarrow> page_parsed s (n + int j)"
  shows "\<exists>S. links_loop s n links = Some (Inr S)"
proof -
  have stop: "process_page s (n + int k) 0 = Inr None"
    using assms(1) by (simp add: process_page_None)
  have ok: "process_page s (n + int j) 0
      = Inr (Some (the (projr (process_page s (n + int j) 0))))" if "j < k" for j
  proof -
    from assms(2) [OF that] obtain page where "process_page s (n + int j) 0 = Inr (Some page)"
      using process_page_parsed [of s "n + int j" 0] by blast
    then show ?thesis by simp
  qed
  from links_loop_stops [of k s n "\<lambda>j. the (projr (process_page s (n + int j) 0))" links,
      OF ok stop]
  show ?thesis by blast
qed

text \<open>
  C5, as the claim states it, fails: the loop also stops when no request fails. On a site
  that answers the request for the first listing page with the status 200 and a body that
  the parser rejects, the loop ends with the exception of the parser and returns nothing.
\<close>

theorem links_loop_rejected_counterexample:
  "broken_site (page_url 1) None = Response 200 Rejected
   \<and> \<not> fetch_fails broken_site 1
   \<and> collect_all_books_links broken_site 1 = Some (Inl ParserRejectedMarkup)"
proof -
  have "links_loop broken_site 1 {} = Some (Inl ParserRejectedMarkup)"
    by (subst links_loop_step) (simp add: process_page_cases broken_site_def)
  then show ?thesis
    by (simp add: collect_all_books_links_def broken_site_def fetch_fails_def)
qed

text \<open>
  C5, amended. The loop returns the links collected so far when the request for the current
  page fails, whether the status is 404, another status from 400 to 599, or there is no
  connection; after a page that is fetched and parsed it goes on to the next page with the
  links of the page added, and with the same links when the page has no anchors; on a page
  that is fetched and whose body the parser rejects it ends with the exception of the
  parser and returns nothing. So the loop returns a set of links if and only if the request
  for one of the pages from the current one on fails and every page before that one is
  fetched and parsed; and it ends at all if and only if one of the pages from the current
  one on is not both fetched and parsed.
\<close>

theorem links_loop_stops_iff_fetch_fails:
  "links_loop session n links =
      (case session (page_url n) None of
         ConnectionFailure \<Rightarrow> Some (Inr links)
       | Response status markup \<Rightarrow>
           if status = 404 then Some (Inr links)
           else if 400 \<le> status \<and> status < 600 then Some (Inr links)
           else (case markup of
                   Rejected \<Rightarrow> Some (Inl ParserRejectedMarkup)
                 | Document page \<Rightarrow> links_loop session (n + 1) (links \<union> detail_urls page)))
   \<and> ((\<exists>S. links_loop session n links = Some (Inr S)) =
        (\<exists>k. fetch_fails session (n + int k) \<and> (\<forall>j<k. page_parsed session (n + int j))))
   \<and> ((\<exists>r. links_loop session n links = Some r) =
        (\<exists>k. \<not> page_parsed session (n + int k)))
   \<and> (\<forall>status page. session (page_url n) None = Response status (Document page)
          \<and> \<not> (400 \<le> status \<and> status < 600) \<and> detail_urls page = {}
        \<longrightarrow> links_loop session n links = links_loop session (n + 1) links)
   \<and> collect_all_books_links session n = links_loop session n {}"
proof (intro conjI allI impI)
  show "links_loop session n links =
      (case session (page_url n) None of
         ConnectionFailure \<Rightarrow> Some (Inr links)
       | Response status markup \<Rightarrow>
           if status = 404 then Some (Inr links)
           else if 400 \<le> status \<and> status < 600 then Some (Inr links)
           else (case markup of
                   Rejected \<Rightarrow> Some (Inl ParserRejectedMarkup)
                 | Document page \<Rightarrow> links_loop session (n + 1) (links \<union> detail_urls page)))"
    by (subst links_loop_step)
       (auto simp: process_page_cases split: fetch_result.splits body.splits)
  show "(\<exists>S. links_loop session n links = Some (Inr S)) =
        (\<exists>k. fetch_fails session (n + int k) \<and> (\<forall>j<k. page_parsed session (n + int j)))"
  proof
    assume "\<exists>S. links_loop session n links = Some (Inr S)"
    then obtain S where "links_loop session n links = Some (Inr S)" by blast
    from links_loop_returns [OF this] obtain k where
      "\<forall>j<k. \<exists>page. process_page session (n + int j) 0 = Inr (Some page)"
      and "process_page session (n + int k) 0 = Inr None"
      by auto
    then have "fetch_fails session (n + int k) \<and> (\<forall>j<k. page_parsed session (n + int j))"
      by (simp add: process_page_None process_page_parsed)
    then show "\<exists>k. fetch_fails session (n + int k) \<and> (\<forall>j<k. page_parsed session (n + int j))"
      by blast
  next
    assume "\<exists>k. fetch_fails session (n + int k) \<and> (\<forall>j<k. page_parsed session (n + int j))"
    then show "\<exists>S. links_loop session n links = Some (Inr S)"
      using links_loop_fails_returns by blast
  qed
  show "(\<exists>r. links_loop session n links = Some r) =
        (\<exists>k. \<not> page_parsed session (n + int k))"
  proof
    assume "\<exists>r. links_loop session n links = Some r"
    then obtain r where "links_loop session n links = Some r" by blast
    from links_loop_returns [OF this] obtain k where
      "case r of
          Inl e \<Rightarrow> process_page session (n + int k) 0 = Inl e
        | Inr S \<Rightarrow> process_page session (n + int k) 0 = Inr None"
      by blast
    then have "\<not> (\<exists>page. process_page session (n + int k) 0 = Inr (Some page))"
      by (cases r) auto
    then have "\<not> page_parsed session (n + int k)"
      by (simp add: process_page_parsed)
    then show "\<exists>k. \<not> page_parsed session (n + int k)" by blast
  next
    assume "\<exists>k. \<not> page_parsed session (n + int k)"
    then show "\<exists>r. links_loop session n links = Some r"
      using links_loop_ends_returns by blast
  qed
  show "links_loop session n links = links_loop session (n + 1) links"
    if "session (page_url n) None = Response status (Document page)
          \<and> \<not> (400 \<le> status \<and> status < 600) \<and> detail_urls page = {}" for status page
  proof -
    from that have "process_page session n 0 = Inr (Some page)" and "detail_urls page = {}"
      using process_page_Some by blast+
    then show ?thesis by (subst links_loop_step) simp
  qed
  show "collect_all_books_links session n = links_loop session n {}"
    by (simp add: collect_all_books_links_def)
qed

theorem links_loop_stops_iff_fetch_fails_witness:
  "sparse_catalog (page_url 1) None = Response 200 (Document empty_page)
   \<and> \<not> (400 \<le> (200::nat) \<and> (200::nat) < 600)
   \<and> detail_urls empty_page = {}
   \<and> links_loop sparse_catalog 1 {} = links_loop sparse_catalog 2 {}
   \<and> collect_all_books_links sparse_catalog 1 =
       Some (Inr {''https://books.toscrape.com/catalogue/b_2/index.html'',
                  ''https://books.toscrape.com/catalogue/c_3/index.html''})"
proof -
  have p1: "sparse_catalog (page_url 1) None = Response 200 (Document empty_page)"
    and p2: "sparse_catalog (page_url 2) None = Response 200 (Document listing_page_2)"
    and p3: "sparse_catalog (page_url 3) None = Response 404 (Document empty_page)"
    by (simp_all add: sparse_catalog_def page_url_simps)
  have e: "detail_urls empty_page = {}" by (rule listing_page_urls)
  have s1: "links_loop sparse_catalog 1 {} = links_loop sparse_catalog 2 {}"
    using links_loop_stops_iff_fetch_fails [of sparse_catalog 1 "{}"] p1 e by simp
  have s2: "links_loop sparse_catalog 2 {} = links_loop sparse_catalog 3 (detail_urls listing_page_2)"
    using links_loop_stops_iff_fetch_fails [of sparse_catalog 2 "{}"] p2 by simp
  have s3: "links_loop sparse_catalog 3 (detail_urls listing_page_2)
      = Some (Inr (detail_urls listing_page_2))"
    using links_loop_stops_iff_fetch_fails [of sparse_catalog 3 "detail_urls listing_page_2"] p3
    by simp
  have "collect_all_books_links sparse_catalog 1 = Some (Inr (detail_urls listing_page_2))"
    using links_loop_stops_iff_fetch_fails [of sparse_catalog 1 "{}"] s1 s2 s3 by simp
  with p1 e s1 show ?thesis by (simp add: listing_page_urls)
qed

subsection \<open>The file\<close>

lemma writelines_concat: "writelines f ls = f @ concat ls"
  unfolding writelines_def by (induction ls arbitrary: f) simp_all

lemma write_books_concat:
  "write_books i books f =
     f @ concat (map (\<lambda>(j, book). book_header j @ concat (map item_line book) @ [CHR 0x0A])
                   (zip [i..<i + length books] books))"
proof (induction books arbitrary: i f)
  case Nil
  then show ?case by simp
next
  case (Cons book books)
  have "[i..<i + length (book # books)] = i # [Suc i..<Suc i + length books]"
    by (subst upt_conv_Cons) simp_all
  then show ?case by (simp add: Cons.IH writelines_concat)
qed

text \<open>
  C8. \<open>_save_books_to_file\<close> sets the contents of the file, whatever they were and
  whether the file existed, to one block for each dictionary in the order of the list,
  numbered from 1: the header line with the number, one line \<open>key: value\<close> for each entry
  of the dictionary in its order, and an empty line. Every other file is left as it is.
\<close>

theorem save_books_to_file_layout:
  "save_books_to_file books filename fs =
     fs(filename \<mapsto>
       concat (map (\<lambda>(i, book).
           ([CHR 0xD0, CHR 0x9A, CHR 0xD0, CHR 0xBD, CHR 0xD0, CHR 0xB8, CHR 0xD0, CHR 0xB3,
             CHR 0xD0, CHR 0xB0, CHR '' '', CHR 0xE2, CHR 0x84, CHR 0x96] @ str_nat i @ [CHR 0x0A])
           @ concat (map (\<lambda>(key, value). key @ '': '' @ value @ [CHR 0x0A]) book)
           @ [CHR 0x0A])
         (zip [1..<Suc (length books)] books)))"
proof -
  have il: "item_line = (\<lambda>(key, value). key @ '': '' @ value @ [CHR 0x0A])"
    by (auto simp: fun_eq_iff item_line_def)
  have "(\<lambda>(j, book). book_header j @ concat (map item_line book) @ [CHR 0x0A])
      = (\<lambda>(i, book).
           ([CHR 0xD0, CHR 0x9A, CHR 0xD0, CHR 0xBD, CHR 0xD0, CHR 0xB8, CHR 0xD0, CHR 0xB3,
             CHR 0xD0, CHR 0xB0, CHR '' '', CHR 0xE2, CHR 0x84, CHR 0x96] @ str_nat i @ [CHR 0x0A])
           @ concat (map (\<lambda>(key, value). key @ '': '' @ value @ [CHR 0x0A]) book)
           @ [CHR 0x0A])"
    unfolding il by (simp add: fun_eq_iff book_header_def)
  then show ?thesis
    by (simp add: save_books_to_file_def write_books_concat)
qed

theorem save_books_to_file_layout_witness:
  "save_books_to_file [[(''UPC'', ''abc''), (''Tax'', ''0.00'')], []] ''books_data.txt''
       [''books_data.txt'' \<mapsto> ''old contents'', ''other.txt'' \<mapsto> ''kept'']
   = [''books_data.txt'' \<mapsto>
        [CHR 0xD0, CHR 0x9A, CHR 0xD0, CHR 0xBD, CHR 0xD0, CHR 0xB8, CHR 0xD0, CHR 0xB3,
         CHR 0xD0, CHR 0xB0, CHR '' '', CHR 0xE2, CHR 0x84, CHR 0x96] @ ''1'' @ [CHR 0x0A]
        @ ''UPC: abc'' @ [CHR 0x0A] @ ''Tax: 0.00'' @ [CHR 0x0A] @ [CHR 0x0A]
        @ [CHR 0xD0, CHR 0x9A, CHR 0xD0, CHR 0xBD, CHR 0xD0, CHR 0xB8, CHR 0xD0, CHR 0xB3,
           CHR 0xD0, CHR 0xB0, CHR '' '', CHR 0xE2, CHR 0x84, CHR 0x96] @ ''2'' @ [CHR 0x0A]
        @ [CHR 0x0A],
      ''other.txt'' \<mapsto> ''kept'']"
proof -
  have "[1..<Suc (length [[(''UPC'', ''abc''), (''Tax'', ''0.00'')], ([]::pydict)])] = [1, 2]"
    by (simp add: upt_conv_Cons)
  then show ?thesis
    using save_books_to_file_layout [of "[[(''UPC'', ''abc''), (''Tax'', ''0.00'')], []]"
      "''books_data.txt''" "[''books_data.txt'' \<mapsto> ''old contents'', ''other.txt'' \<mapsto> ''kept'']"]
    by (simp add: str_nat.simps fun_upd_twist)
qed

subsection \<open>The batches\<close>







lemma sleep_default: "sleep 2 = None"
  by (simp add: sleep_def)




lemma shop_book:
  "get_book_data ''https://books.toscrape.com/catalogue/a_1/index.html'' shop 10 = Inr book_record"
proof -
  have r: "get_book_response ''https://books.toscrape.com/catalogue/a_1/index.html'' shop 10
      = Inr (Some book_page)"
    by (simp add: get_book_response_def shop_def raises_for_status_def BeautifulSoup_def)
  show ?thesis
    by (simp add: get_book_data_def r main_block_find main_block_fields book_page_description
        collect_additional_info_rows table_rows_book_page row_step_def row_key_simps
        dict_update_def book_record_def)
qed

lemma shop_missing:
  "get_book_data ''https://books.toscrape.com/catalogue/b_2/index.html'' shop 10 = Inr []"
  "get_book_data ''https://books.toscrape.com/catalogue/c_3/index.html'' shop 10 = Inr []"
  by (simp_all add: get_book_data_def get_book_response_def shop_def raises_for_status_def)



subsection \<open>The whole run\<close>

text \<open>
  C10. A run of \<open>scrape_books\<close> with \<open>save=False\<close> is the run with \<open>save=True\<close> with
  the file system left as it was: both return the same list (or raise the same error, or
  both do not return), the run without saving changes no file, and the run with saving
  changes only the file \<open>books_data.txt\<close>, which then holds the dump of the list.
\<close>

theorem scrape_books_save_flag:
  "scrape_books w False fs
     = map_option (map_sum id (\<lambda>p. (fst p, fs))) (scrape_books w True fs)
   \<and> map_option (map_sum id fst) (scrape_books w False fs)
     = map_option (map_sum id fst) (scrape_books w True fs)
   \<and> (case scrape_books w False fs of
         Some (Inr (all_books_data, fs')) \<Rightarrow> fs' = fs
       | _ \<Rightarrow> True)
   \<and> (case scrape_books w True fs of
         Some (Inr (all_books_data, fs')) \<Rightarrow>
           fs' = save_books_to_file all_books_data ''books_data.txt'' fs
           \<and> fs' ''books_data.txt'' = Some (write_books 1 all_books_data [])
           \<and> (\<forall>name. name = ''books_data.txt'' \<or> fs' name = fs name)
       | _ \<Rightarrow> True)"
  by (simp add: scrape_books_def save_books_to_file_def
      split: option.splits sum.splits)

lemma shop_links:
  "collect_all_books_links shop 1 =
     Some (Inr {''https://books.toscrape.com/catalogue/a_1/index.html'',
                ''https://books.toscrape.com/catalogue/b_2/index.html''})"
proof -
  have p1: "process_page shop (1 + int j) 0 = Inr (Some ((\<lambda>j. listing_page_1) j))"
    if "j < 1" for j
    using that by (simp add: process_page_cases shop_def page_url_simps)
  have p2: "process_page shop (1 + int 1) 0 = Inr None"
    by (simp add: process_page_cases shop_def page_url_simps)
  have u: "(\<Union>j<(1::nat). detail_urls listing_page_1) = detail_urls listing_page_1"
    by auto
  from links_loop_stops [of 1 shop 1 "\<lambda>j. listing_page_1" "{}", OF p1 p2]
  have "links_loop shop 1 {} = Some (Inr (detail_urls listing_page_1))"
    unfolding u by simp
  then show ?thesis by (simp add: collect_all_books_links_def listing_page_urls)
qed

lemma shop_run:
  "scrape_books shop_world True Map.empty =
     Some (Inr ([book_record, []],
       [''books_data.txt'' \<mapsto> write_books 1 [book_record, []] []]))"
  by (simp add: scrape_books_def shop_world_def shop_links process_books_in_batches_def
      batch_loop.simps as_completed_def shop_book shop_missing upt_conv_Cons
      save_books_to_file_def sleep_default)

theorem scrape_books_save_flag_witness:
  "scrape_books shop_world True Map.empty =
     Some (Inr ([book_record, []],
       [''books_data.txt'' \<mapsto> write_books 1 [book_record, []] []]))
   \<and> scrape_books shop_world False Map.empty = Some (Inr ([book_record, []], Map.empty))"
  using scrape_books_save_flag [of shop_world Map.empty] shop_run by simp

end
